theory Spec2Isabelle
  imports Complex_Main
begin

section \<open>Python and numpy values used by \<open>tmap.tda.mapper\<close>\<close>

text \<open>
  The embedding follows \<open>src/tmap/tda/mapper.py\<close>. Exceptions are values of type
  \<open>error\<close>; a function that can raise returns \<open>error + 'a\<close> with \<open>Inl\<close> the exception.
  The printing of the progress output guarded by \<open>self.verbose\<close> is left out; the
  attributes of a lens that \<open>Mapper.filter\<close> reads for it are kept, since reading them
  can raise.
  Entries of numeric arrays are idealised as real numbers; numpy's \<open>nan\<close> is the
  value \<open>Nan\<close> of \<open>npfloat\<close>.
\<close>

datatype error =
    AssertionError
  | IndexError
  | KeyError
  | TypeError
  | ValueError
  | AttributeError
  | DataIsNone
  | CapabilityError string

text \<open>A two-dimensional array: \<open>shape[1]\<close> and the list of rows; \<open>shape[0]\<close> is the
  number of rows.\<close>

record 'a ndarray =
  shape1 :: nat
  rows :: "'a list list"

definition shape0 :: "'a ndarray \<Rightarrow> nat" where
  "shape0 a = length (rows a)"

definition wf_ndarray :: "'a ndarray \<Rightarrow> bool" where
  "wf_ndarray a = list_all (\<lambda>r. length r = shape1 a) (rows a)"

text \<open>\<open>xs[idx]\<close> for an array of integer indices: an index past the end raises.\<close>

definition take_1d :: "'a list \<Rightarrow> nat list \<Rightarrow> error + 'a list" where
  "take_1d xs idx =
     (if list_all (\<lambda>i. i < length xs) idx then Inr (map (\<lambda>i. xs ! i) idx)
      else Inl IndexError)"

text \<open>\<open>a[idx]\<close>: the rows of \<open>a\<close> at the indices \<open>idx\<close>.\<close>

definition take_rows :: "'a ndarray \<Rightarrow> nat list \<Rightarrow> error + 'a ndarray" where
  "take_rows a idx =
     (case take_1d (rows a) idx of
        Inl e \<Rightarrow> Inl e
      | Inr rs \<Rightarrow> Inr \<lparr>shape1 = shape1 a, rows = rs\<rparr>)"

text \<open>\<open>a[:, idx]\<close>: the columns of \<open>a\<close> at the indices \<open>idx\<close>.\<close>

definition take_cols :: "'a ndarray \<Rightarrow> nat list \<Rightarrow> error + 'a ndarray" where
  "take_cols a idx =
     (if list_all (\<lambda>j. j < shape1 a) idx
      then Inr \<lparr>shape1 = length idx, rows = map (\<lambda>r. map (\<lambda>j. r ! j) idx) (rows a)\<rparr>
      else Inl IndexError)"

text \<open>\<open>xs[m]\<close> for a boolean array \<open>m\<close>: the lengths must agree.\<close>

definition bool_index :: "'a list \<Rightarrow> bool list \<Rightarrow> error + 'a list" where
  "bool_index xs m =
     (if length m = length xs then Inr (map fst (filter snd (zip xs m)))
      else Inl IndexError)"

text \<open>\<open>m[idx] = True\<close> on a boolean array.\<close>

definition mask_assign :: "bool list \<Rightarrow> nat list \<Rightarrow> error + bool list" where
  "mask_assign m idx =
     (if list_all (\<lambda>i. i < length m) idx then Inr (fold (\<lambda>i acc. acc[i := True]) idx m)
      else Inl IndexError)"

text \<open>\<open>np.unique\<close>: the distinct values, ascending.\<close>

definition np_unique :: "int list \<Rightarrow> int list" where
  "np_unique xs = sort (remdups xs)"

text \<open>\<open>a & b\<close> and \<open>np.any\<close> on boolean arrays of one length (every mask of the
  mapping stage has the length \<open>data_vals.shape[0]\<close>).\<close>

definition mask_and :: "bool list \<Rightarrow> bool list \<Rightarrow> bool list" where
  "mask_and a b = map2 (\<and>) a b"

definition np_any :: "bool list \<Rightarrow> bool" where
  "np_any m = list_ex (\<lambda>b. b) m"

text \<open>A dict keeps its keys in insertion order; assigning to a present key keeps the
  key's place.\<close>

type_synonym ('k, 'v) dict = "('k \<times> 'v) list"

fun dict_set :: "('k, 'v) dict \<Rightarrow> 'k \<Rightarrow> 'v \<Rightarrow> ('k, 'v) dict" where
  "dict_set [] k v = [(k, v)]"
| "dict_set ((k', v') # d) k v =
     (if k' = k then (k, v) # d else (k', v') # dict_set d k v)"

definition dict_keys :: "('k, 'v) dict \<Rightarrow> 'k list" where
  "dict_keys d = map fst d"

definition dict_get :: "('k, 'v) dict \<Rightarrow> 'k \<Rightarrow> 'v option" where
  "dict_get d k = map_of d k"

text \<open>\<open>enumerate\<close> and \<open>itertools.combinations(xs, 2)\<close>.\<close>

definition enumerate_list :: "'a list \<Rightarrow> (nat \<times> 'a) list" where
  "enumerate_list xs = zip [0..<length xs] xs"

fun combinations2 :: "'a list \<Rightarrow> ('a \<times> 'a) list" where
  "combinations2 [] = []"
| "combinations2 (x # xs) = map (Pair x) xs @ combinations2 xs"

text \<open>Floating-point results that may be \<open>nan\<close>.\<close>

datatype npfloat = Nan | Num real

fun fadd :: "npfloat \<Rightarrow> npfloat \<Rightarrow> npfloat" where
  "fadd (Num a) (Num b) = Num (a + b)"
| "fadd _ _ = Nan"

text \<open>\<open>np.average(a, axis=0)\<close>: the mean of every column; the mean of no rows is
  \<open>nan\<close> (numpy warns and does not raise).\<close>

definition np_average_axis0 :: "real ndarray \<Rightarrow> npfloat list" where
  "np_average_axis0 a =
     map (\<lambda>j. if rows a = [] then Nan
              else Num (sum_list (map (\<lambda>r. r ! j) (rows a)) / real (shape0 a)))
       [0..<shape1 a]"

text \<open>\<open>np.concatenate([a, b], axis=1)\<close>: the row counts must agree.\<close>

definition np_concatenate_axis1 :: "'a ndarray \<Rightarrow> 'a ndarray \<Rightarrow> error + 'a ndarray" where
  "np_concatenate_axis1 a b =
     (if shape0 a = shape0 b
      then Inr \<lparr>shape1 = shape1 a + shape1 b, rows = map2 (@) (rows a) (rows b)\<rparr>
      else Inl ValueError)"

text \<open>A pandas DataFrame over node ids: row labels, column labels and the cells, with
  \<open>None\<close> for \<open>NaN\<close>. \<open>df.loc[r, c] = v\<close> sets a cell and adds a missing label.
  \<open>df.stack(dropna=True).index.tolist()\<close> lists the labels of the cells that are not
  \<open>NaN\<close>, row by row.\<close>

record dataframe =
  df_index :: "nat list"
  df_columns :: "nat list"
  df_cells :: "nat \<times> nat \<Rightarrow> real option"

definition df_nan :: "nat list \<Rightarrow> nat list \<Rightarrow> dataframe" where
  "df_nan idx cols = \<lparr>df_index = idx, df_columns = cols, df_cells = (\<lambda>_. None)\<rparr>"

definition df_loc_set :: "dataframe \<Rightarrow> nat \<Rightarrow> nat \<Rightarrow> real \<Rightarrow> dataframe" where
  "df_loc_set df r c v =
     \<lparr>df_index = (if r \<in> set (df_index df) then df_index df else df_index df @ [r]),
      df_columns = (if c \<in> set (df_columns df) then df_columns df else df_columns df @ [c]),
      df_cells = (df_cells df)((r, c) := Some v)\<rparr>"

definition df_stack_index :: "dataframe \<Rightarrow> (nat \<times> nat) list" where
  "df_stack_index df =
     filter (\<lambda>rc. df_cells df rc \<noteq> None) (List.product (df_index df) (df_columns df))"

section \<open>The collaborators of the mapper\<close>

text \<open>
  The clusterer: its \<open>metric\<close>, its parameters (\<open>get_params()\<close>) and its \<open>fit\<close>,
  which is \<open>None\<close> when the object has no \<open>fit\<close> attribute; \<open>fit\<close> returns the
  \<open>labels_\<close> it leaves behind, or raises.
\<close>

record 'a clusterer =
  metric :: string
  get_params :: "(string \<times> int) list"
  fit :: "('a ndarray \<Rightarrow> error + int list) option"

text \<open>Modelled from the spec: the class \<open>Cover\<close> is not part of the sources. The spec
  gives it the point count, the projected matrix \<open>data\<close>, the parameters \<open>resolution\<close>
  and \<open>overlap\<close>, and \<open>hypercubes\<close>, a sequence of collections of integer point
  indices.\<close>

record cover =
  n_points :: nat
  cover_data :: "real ndarray"
  hypercubes :: "nat list list"
  resolution :: nat
  overlap :: real

text \<open>The raw data: a numpy array (\<open>frame_index = None\<close>) or a pandas DataFrame with
  its row labels.\<close>

record 'a frame =
  frame_index :: "string list option"
  frame_values :: "'a ndarray"

definition wf_frame :: "'a frame \<Rightarrow> bool" where
  "wf_frame d =
     (case frame_index d of None \<Rightarrow> True | Some ix \<Rightarrow> length ix = shape0 (frame_values d))"

section \<open>\<open>Mapper.filter\<close>\<close>

text \<open>A lens: what reading its attribute \<open>metric\<close> gives (no such attribute, \<open>None\<close>,
  or an object with or without the attribute \<open>name\<close>) and its \<open>fit_transform\<close>.\<close>

datatype metric_attr = NoMetric | MetricNone | MetricNamed string | MetricNameless

record 'a lens =
  lens_metric :: metric_attr
  fit_transform :: "'a ndarray \<Rightarrow> error + 'a ndarray"

text \<open>Lines 46 to 51: with \<open>self.verbose >= 1\<close> the loop reads \<open>_filter.metric\<close> and,
  when that is not \<open>None\<close>, \<open>_filter.metric.name\<close>, and prints.\<close>

definition filter_log :: "int \<Rightarrow> 'a lens \<Rightarrow> error + unit" where
  "filter_log verbose l =
     (if verbose \<ge> 1 then
        (case lens_metric l of
           NoMetric \<Rightarrow> Inl AttributeError
         | MetricNone \<Rightarrow> Inr ()
         | MetricNamed nm \<Rightarrow> Inr ()
         | MetricNameless \<Rightarrow> Inl AttributeError)
      else Inr ())"

fun filter_loop ::
  "int \<Rightarrow> 'a ndarray \<Rightarrow> 'a lens list \<Rightarrow> 'a ndarray option \<Rightarrow> error + 'a ndarray option" where
  "filter_loop verbose data [] projected_data = Inr projected_data"
| "filter_loop verbose data (l # rest) projected_data =
     (case filter_log verbose l of
        Inl e \<Rightarrow> Inl e
      | Inr _ \<Rightarrow>
          (case projected_data of
             None \<Rightarrow>
               (case fit_transform l data of
                  Inl e \<Rightarrow> Inl e
                | Inr p \<Rightarrow> filter_loop verbose data rest (Some p))
           | Some pd \<Rightarrow>
               (case fit_transform l data of
                  Inl e \<Rightarrow> Inl e
                | Inr p \<Rightarrow>
                    (case np_concatenate_axis1 pd p of
                       Inl e \<Rightarrow> Inl e
                     | Inr q \<Rightarrow> filter_loop verbose data rest (Some q)))))"

text \<open>\<open>verbose\<close> is \<open>self.verbose\<close>. \<open>lens\<close> is \<open>None\<close> when the caller leaves it
  out (the parameter's default); \<open>len(None)\<close> raises \<open>TypeError\<close>.\<close>

definition mapper_filter ::
  "int \<Rightarrow> 'a ndarray option \<Rightarrow> 'a lens list option \<Rightarrow> error + 'a ndarray option" where
  "mapper_filter verbose data lens =
     (case data of
        None \<Rightarrow> Inl DataIsNone
      | Some d \<Rightarrow>
          (case lens of
             None \<Rightarrow> Inl TypeError
           | Some ls \<Rightarrow>
               if length ls > 0 then filter_loop verbose d ls None
               else Inr (Some d)))"

section \<open>\<open>Mapper.map\<close>\<close>

definition min_cluster_samples :: "'a clusterer \<Rightarrow> int" where
  "min_cluster_samples clusterer =
     (case map_of (get_params clusterer) ''min_samples'' of None \<Rightarrow> 1 | Some m \<Rightarrow> m)"

text \<open>Lines 121 to 124: the subset of the data passed to the clusterer.\<close>

definition cube_data :: "'a clusterer \<Rightarrow> 'a ndarray \<Rightarrow> nat list \<Rightarrow> error + 'a ndarray" where
  "cube_data clusterer data_vals cube =
     (if metric clusterer \<noteq> ''precomputed'' then take_rows data_vals cube
      else (case take_rows data_vals cube of
              Inl e \<Rightarrow> Inl e
            | Inr sub \<Rightarrow> take_cols sub cube))"

text \<open>Lines 130 to 136: one node for every label but \<open>-1\<close>. The state is the counter
  \<open>node_id\<close> and the dict \<open>nodes\<close>.\<close>

type_synonym mstate = "nat \<times> (nat, bool list) dict"

fun label_loop ::
  "nat \<Rightarrow> nat list \<Rightarrow> int list \<Rightarrow> int list \<Rightarrow> mstate \<Rightarrow> error + mstate" where
  "label_loop n cube_data_idx labels [] st = Inr st"
| "label_loop n cube_data_idx labels (label # rest) (node_id, nodes) =
     (if label \<noteq> - 1 then
        (case bool_index cube_data_idx (map (\<lambda>l. l = label) labels) of
           Inl e \<Rightarrow> Inl e
         | Inr members \<Rightarrow>
             (case mask_assign (replicate n False) members of
                Inl e \<Rightarrow> Inl e
              | Inr point_mask \<Rightarrow>
                  label_loop n cube_data_idx labels rest
                    (node_id + 1, dict_set nodes node_id point_mask)))
      else label_loop n cube_data_idx labels rest (node_id, nodes))"

text \<open>Lines 126 to 142: the gate on the subset's size, then the clustering of one
  hypercube; \<open>n\<close> is \<open>data_vals.shape[0]\<close> and \<open>data_idx\<close> is \<open>np.arange(n)\<close>.\<close>

definition cluster_cube ::
  "'a clusterer \<Rightarrow> nat \<Rightarrow> nat list \<Rightarrow> 'a ndarray \<Rightarrow> mstate \<Rightarrow> error + mstate" where
  "cluster_cube clusterer n cube cd st =
     (case take_1d [0..<n] cube of
        Inl e \<Rightarrow> Inl e
      | Inr cube_data_idx \<Rightarrow>
          if int (shape0 cd) \<ge> min_cluster_samples clusterer then
            (case fit clusterer of
               Some f \<Rightarrow>
                 (case f cd of
                    Inl e \<Rightarrow> Inl e
                  | Inr labels \<Rightarrow> label_loop n cube_data_idx labels (np_unique labels) st)
             | None \<Rightarrow>
                 (case mask_assign (replicate n False) cube_data_idx of
                    Inl e \<Rightarrow> Inl e
                  | Inr point_mask \<Rightarrow>
                      Inr (fst st + 1, dict_set (snd st) (fst st) point_mask)))
          else Inr st)"

definition cube_step :: "'a clusterer \<Rightarrow> 'a ndarray \<Rightarrow> nat list \<Rightarrow> mstate \<Rightarrow> error + mstate" where
  "cube_step clusterer data_vals cube st =
     (case cube_data clusterer data_vals cube of
        Inl e \<Rightarrow> Inl e
      | Inr cd \<Rightarrow> cluster_cube clusterer (shape0 data_vals) cube cd st)"

fun cube_loop ::
  "'a clusterer \<Rightarrow> 'a ndarray \<Rightarrow> nat list list \<Rightarrow> mstate \<Rightarrow> error + mstate" where
  "cube_loop clusterer data_vals [] st = Inr st"
| "cube_loop clusterer data_vals (cube # rest) st =
     (case cube_step clusterer data_vals cube st of
        Inl e \<Rightarrow> Inl e
      | Inr st' \<Rightarrow> cube_loop clusterer data_vals rest st')"

text \<open>Lines 157 to 161: the position and the size of every node.\<close>

fun positions_loop ::
  "real ndarray \<Rightarrow> (nat, bool list) dict \<Rightarrow> (nat \<times> nat) list \<Rightarrow>
   npfloat list list \<times> npfloat list list \<Rightarrow> error + npfloat list list \<times> npfloat list list" where
  "positions_loop cd nodes [] acc = Inr acc"
| "positions_loop cd nodes ((i, node_id) # rest) (node_positions, node_sizes) =
     (case dict_get nodes node_id of
        None \<Rightarrow> Inl KeyError
      | Some node_mask \<Rightarrow>
          (case bool_index (rows cd) node_mask of
             Inl e \<Rightarrow> Inl e
           | Inr sel \<Rightarrow>
               (let data_in_node = \<lparr>shape1 = shape1 cd, rows = sel\<rparr>;
                    node_coordinates = np_average_axis0 data_in_node
                in if i < length node_positions \<and> i < length node_sizes then
                     positions_loop cd nodes rest
                       (node_positions[i := map2 fadd (node_positions ! i) node_coordinates],
                        node_sizes[i := map (\<lambda>s. fadd s (Num (real (shape0 data_in_node))))
                                          (node_sizes ! i)])
                   else Inl IndexError)))"

text \<open>Lines 171 to 173: the cell \<open>(k1, k2)\<close> is set for every pair of the combinations
  whose masks share a point.\<close>

fun edges_loop ::
  "(nat, bool list) dict \<Rightarrow> (nat \<times> nat) list \<Rightarrow> dataframe \<Rightarrow> error + dataframe" where
  "edges_loop nodes [] adj = Inr adj"
| "edges_loop nodes ((k1, k2) # rest) adj =
     (case dict_get nodes k1 of
        None \<Rightarrow> Inl KeyError
      | Some m1 \<Rightarrow>
          (case dict_get nodes k2 of
             None \<Rightarrow> Inl KeyError
           | Some m2 \<Rightarrow>
               edges_loop nodes rest
                 (if np_any (mask_and m1 m2) then df_loc_set adj k1 k2 1 else adj)))"

text \<open>Line 182: the masks become lists of point ids.\<close>

fun ids_of_nodes ::
  "nat list \<Rightarrow> (nat, bool list) dict \<Rightarrow> error + (nat, nat list) dict" where
  "ids_of_nodes data_idx [] = Inr []"
| "ids_of_nodes data_idx ((node_id, node_mask) # rest) =
     (case bool_index data_idx node_mask of
        Inl e \<Rightarrow> Inl e
      | Inr ids \<Rightarrow>
          (case ids_of_nodes data_idx rest of
             Inl e \<Rightarrow> Inl e
           | Inr d \<Rightarrow> Inr ((node_id, ids) # d)))"

datatype sample_name = Label string | Row nat

record graph_params =
  cluster_params :: "(string \<times> int) list"
  cover_resolution :: nat
  cover_overlap :: real

record graph =
  nodes :: "(nat, nat list) dict"
  edges :: "(nat \<times> nat) list"
  adj_matrix :: dataframe
  sample_names :: "sample_name list"
  node_keys :: "nat list"
  node_positions :: "npfloat list list"
  node_sizes :: "npfloat list list"
  params :: graph_params

text \<open>The returned dict: \<open>{}\<close> or the graph with its eight keys.\<close>

datatype graph_dict = EmptyDict | GraphDict graph

definition mapper_map :: "'a frame \<Rightarrow> cover \<Rightarrow> 'a clusterer \<Rightarrow> error + graph_dict" where
  "mapper_map data cover clusterer =
     (if shape0 (frame_values data) \<noteq> n_points cover then Inl AssertionError
      else
        let data_vals = frame_values data;
            data_idx = [0..<shape0 data_vals]
        in
          if metric clusterer = ''precomputed'' \<and> shape0 data_vals \<noteq> shape1 data_vals
          then Inl AssertionError
          else
            (case cube_loop clusterer data_vals (hypercubes cover) (0, []) of
               Inl e \<Rightarrow> Inl e
             | Inr (_, masks) \<Rightarrow>
                 if length masks = 0 then Inr EmptyDict
                 else
                   (case positions_loop (cover_data cover) masks
                           (enumerate_list (dict_keys masks))
                           (replicate (length masks)
                              (replicate (shape1 (cover_data cover)) (Num 0)),
                            replicate (length masks) [Num 0]) of
                      Inl e \<Rightarrow> Inl e
                    | Inr (positions, sizes) \<Rightarrow>
                        (case edges_loop masks (combinations2 (dict_keys masks))
                                (df_nan (dict_keys masks) (dict_keys masks)) of
                           Inl e \<Rightarrow> Inl e
                         | Inr adj \<Rightarrow>
                             (case ids_of_nodes data_idx masks of
                                Inl e \<Rightarrow> Inl e
                              | Inr ids \<Rightarrow>
                                  Inr (GraphDict
                                    \<lparr>nodes = ids,
                                     edges = df_stack_index adj,
                                     adj_matrix = adj,
                                     sample_names =
                                       (case frame_index data of
                                          Some ix \<Rightarrow> map Label ix
                                        | None \<Rightarrow> map Row [0..<shape0 (frame_values data)]),
                                     node_keys = dict_keys masks,
                                     node_positions = positions,
                                     node_sizes = sizes,
                                     params =
                                       \<lparr>cluster_params = get_params clusterer,
                                        cover_resolution = resolution cover,
                                        cover_overlap = overlap cover\<rparr>\<rparr>))))))"

section \<open>The statements of the specification, in its own words\<close>

text \<open>A lens whose metric the progress output can read: the attribute \<open>metric\<close> is
  there and is \<open>None\<close> or has a \<open>name\<close>.\<close>

definition metric_readable :: "'a lens \<Rightarrow> bool" where
  "metric_readable l =
     (case lens_metric l of
        NoMetric \<Rightarrow> False
      | MetricNone \<Rightarrow> True
      | MetricNamed nm \<Rightarrow> True
      | MetricNameless \<Rightarrow> False)"

text \<open>The principal submatrix \<open>data[I][:, I]\<close>: rows and columns both restricted to the
  index collection \<open>I\<close>.\<close>

definition principal_submatrix :: "'a ndarray \<Rightarrow> nat list \<Rightarrow> 'a ndarray" where
  "principal_submatrix a I =
     \<lparr>shape1 = length I, rows = map (\<lambda>i. map (\<lambda>j. rows a ! i ! j) I) I\<rparr>"

text \<open>The mask that marks exactly the points of a hypercube that carry the label
  \<open>l\<close>, the distinct labels other than the sentinel \<open>-1\<close> in ascending order, the mask
  of a whole hypercube, and the masks of the nodes that one hypercube gives.\<close>

definition label_mask :: "nat \<Rightarrow> nat list \<Rightarrow> int list \<Rightarrow> int \<Rightarrow> bool list" where
  "label_mask n cube labels l = map (\<lambda>p. (p, l) \<in> set (zip cube labels)) [0..<n]"

definition cube_labels :: "int list \<Rightarrow> int list" where
  "cube_labels labels = sort (remdups (filter (\<lambda>l. l \<noteq> - 1) labels))"

definition whole_cube_mask :: "nat \<Rightarrow> nat list \<Rightarrow> bool list" where
  "whole_cube_mask n cube = map (\<lambda>p. p \<in> set cube) [0..<n]"

definition cube_masks :: "'a clusterer \<Rightarrow> 'a ndarray \<Rightarrow> nat list \<Rightarrow> bool list list" where
  "cube_masks c dv cube =
     (case cube_data c dv cube of
        Inl e \<Rightarrow> []
      | Inr sub \<Rightarrow>
          if int (shape0 sub) \<ge> min_cluster_samples c then
            (case fit c of
               Some f \<Rightarrow>
                 (case f sub of
                    Inl e \<Rightarrow> []
                  | Inr labels \<Rightarrow> map (label_mask (shape0 dv) cube labels) (cube_labels labels))
             | None \<Rightarrow> [whole_cube_mask (shape0 dv) cube])
          else [])"

text \<open>The invariant of the loop over the hypercubes: the keys of \<open>nodes\<close> are
  \<open>0, 1, ...\<close> up to the counter \<open>node_id\<close>, in this order.\<close>

definition keys_ok :: "mstate \<Rightarrow> bool" where
  "keys_ok st = (map fst (snd st) = [0..<fst st])"

text \<open>The member points of a node: the positions of its mask that are \<open>True\<close>.\<close>

definition member_points :: "bool list \<Rightarrow> nat list" where
  "member_points m = filter (\<lambda>p. m ! p) [0..<length m]"

text \<open>The coordinate-wise average, over the points \<open>ids\<close>, of the rows of a matrix;
  \<open>nan\<close> when there is no point.\<close>

definition mean_position :: "real ndarray \<Rightarrow> nat list \<Rightarrow> npfloat list" where
  "mean_position cd ids =
     map (\<lambda>j. if ids = [] then Nan
              else Num ((\<Sum>p\<leftarrow>ids. rows cd ! p ! j) / real (length ids)))
       [0..<shape1 cd]"

section \<open>Inputs of the examples\<close>

definition id_lens :: "real lens" where
  "id_lens = \<lparr>lens_metric = MetricNone, fit_transform = (\<lambda>a. Inr a)\<rparr>"

definition row_sums :: "real ndarray \<Rightarrow> error + real ndarray" where
  "row_sums a = Inr \<lparr>shape1 = 1, rows = map (\<lambda>r. [sum_list r]) (rows a)\<rparr>"

definition sum_lens :: "real lens" where
  "sum_lens = \<lparr>lens_metric = MetricNamed ''euclidean'', fit_transform = row_sums\<rparr>"

definition bare_lens :: "real lens" where
  "bare_lens = \<lparr>lens_metric = NoMetric, fit_transform = row_sums\<rparr>"

definition two_points :: "real ndarray" where
  "two_points = \<lparr>shape1 = 2, rows = [[1, 2], [3, 4]]\<rparr>"


definition failing_fit :: "real ndarray \<Rightarrow> error + int list" where
  "failing_fit a = Inl (CapabilityError ''fit'')"

definition dist3 :: "real ndarray" where
  "dist3 = \<lparr>shape1 = 3, rows = [[0, 1, 5], [1, 0, 4], [5, 4, 0]]\<rparr>"



definition failing_clusterer :: "real clusterer" where
  "failing_clusterer =
     \<lparr>metric = ''precomputed'', get_params = [], fit = Some failing_fit\<rparr>"

definition cover2 :: cover where
  "cover2 = \<lparr>n_points = 2, cover_data = \<lparr>shape1 = 1, rows = [[0], [1]]\<rparr>,
             hypercubes = [[0, 1], [1, 7]], resolution = 2, overlap = 1 / 2\<rparr>"

definition threshold_fit :: "real ndarray \<Rightarrow> error + int list" where
  "threshold_fit a =
     Inr (map (\<lambda>r. if r ! 0 < 0 then - 1 else if r ! 0 < 3 then 0 else 1) (rows a))"

definition threshold_clusterer :: "real clusterer" where
  "threshold_clusterer =
     \<lparr>metric = ''euclidean'', get_params = [(''min_samples'', 2)], fit = Some threshold_fit\<rparr>"

definition line_points :: "real ndarray" where
  "line_points = \<lparr>shape1 = 1, rows = [[0], [1], [- 1], [5], [6]]\<rparr>"

definition line_cubes :: "nat list list" where
  "line_cubes = [[0, 1, 2], [1, 3, 4], [2]]"

definition strict_clusterer :: "real clusterer" where
  "strict_clusterer =
     \<lparr>metric = ''euclidean'', get_params = [(''min_samples'', 4)], fit = Some failing_fit\<rparr>"

definition line_projected :: "real ndarray" where
  "line_projected = \<lparr>shape1 = 2, rows = [[0, 0], [2, 1], [- 2, 1], [10, 1], [12, 0]]\<rparr>"

definition line_cover :: cover where
  "line_cover = \<lparr>n_points = 5, cover_data = line_projected, hypercubes = line_cubes,
                 resolution = 3, overlap = 1 / 2\<rparr>"

definition line_frame :: "real frame" where
  "line_frame = \<lparr>frame_index = Some [''a'', ''b'', ''c'', ''d'', ''e''], frame_values = line_points\<rparr>"

definition nofit_clusterer :: "real clusterer" where
  "nofit_clusterer =
     \<lparr>metric = ''euclidean'', get_params = [(''min_samples'', 0)], fit = None\<rparr>"

definition pair_frame :: "real frame" where
  "pair_frame = \<lparr>frame_index = None, frame_values = \<lparr>shape1 = 1, rows = [[0], [1]]\<rparr>\<rparr>"

definition gap_cover :: cover where
  "gap_cover = \<lparr>n_points = 2, cover_data = \<lparr>shape1 = 1, rows = [[0], [1]]\<rparr>,
                hypercubes = [[0, 1], []], resolution = 2, overlap = 0\<rparr>"

definition gap_graph :: graph where
  "gap_graph =
     \<lparr>nodes = [(0, [0, 1]), (1, [])],
      edges = [],
      adj_matrix = df_nan [0, 1] [0, 1],
      sample_names = [Row 0, Row 1],
      node_keys = [0, 1],
      node_positions = [[Num (1 / 2)], [Nan]],
      node_sizes = [[Num 2], [Num 0]],
      params = \<lparr>cluster_params = [(''min_samples'', 0)], cover_resolution = 2,
                cover_overlap = 0\<rparr>\<rparr>"

definition line_graph :: graph where
  "line_graph =
     \<lparr>nodes = [(0, [0, 1]), (1, [1]), (2, [3, 4])],
      edges = [(0, 1)],
      adj_matrix = \<lparr>df_index = [0, 1, 2], df_columns = [0, 1, 2],
                    df_cells = (\<lambda>_. None)((0, 1) := Some 1)\<rparr>,
      sample_names = [Label ''a'', Label ''b'', Label ''c'', Label ''d'', Label ''e''],
      node_keys = [0, 1, 2],
      node_positions = [[Num 1, Num (1 / 2)], [Num 2, Num 1], [Num 11, Num (1 / 2)]],
      node_sizes = [[Num 2], [Num 1], [Num 2]],
      params = \<lparr>cluster_params = [(''min_samples'', 2)], cover_resolution = 3,
                cover_overlap = 1 / 2\<rparr>\<rparr>"

section \<open>Arrays and lists\<close>

lemma filter_log_readable:
  "filter_log verbose l =
     (if verbose < 1 \<or> metric_readable l then Inr () else Inl AttributeError)"
  by (auto simp: filter_log_def metric_readable_def split: metric_attr.splits)

lemma map2_append_take:
  "length xs = length ys \<Longrightarrow> \<forall>r \<in> set xs. length r = w \<Longrightarrow>
   map (take w) (map2 (@) xs ys) = xs"
  by (induction xs ys rule: list_induct2) auto

lemma map2_append_drop:
  "length xs = length ys \<Longrightarrow> \<forall>r \<in> set xs. length r = w \<Longrightarrow>
   map (drop w) (map2 (@) xs ys) = ys"
  by (induction xs ys rule: list_induct2) auto

lemma map2_append_length:
  "length xs = length ys \<Longrightarrow> \<forall>r \<in> set xs. length r = w \<Longrightarrow>
   \<forall>r \<in> set ys. length r = v \<Longrightarrow> \<forall>r \<in> set (map2 (@) xs ys). length r = w + v"
  by (induction xs ys rule: list_induct2) auto

lemma np_concatenate_axis1_cols:
  assumes "shape0 a = shape0 b" "wf_ndarray a" "wf_ndarray b"
  shows "\<exists>r. np_concatenate_axis1 a b = Inr r \<and> shape0 r = shape0 a
           \<and> shape1 r = shape1 a + shape1 b \<and> wf_ndarray r
           \<and> map (take (shape1 a)) (rows r) = rows a
           \<and> map (drop (shape1 a)) (rows r) = rows b"
proof -
  let ?r = "\<lparr>shape1 = shape1 a + shape1 b, rows = map2 (@) (rows a) (rows b)\<rparr>"
  have len: "length (rows a) = length (rows b)"
    using assms(1) by (simp add: shape0_def)
  have la: "\<forall>r \<in> set (rows a). length r = shape1 a"
    using assms(2) by (simp add: wf_ndarray_def list_all_iff)
  have lb: "\<forall>r \<in> set (rows b). length r = shape1 b"
    using assms(3) by (simp add: wf_ndarray_def list_all_iff)
  have c: "np_concatenate_axis1 a b = Inr ?r"
    using assms(1) by (simp add: np_concatenate_axis1_def)
  have s0: "shape0 ?r = shape0 a"
    using len by (simp add: shape0_def)
  have wf: "wf_ndarray ?r"
    using map2_append_length [OF len la lb] by (simp add: wf_ndarray_def list_all_iff)
  have t: "map (take (shape1 a)) (rows ?r) = rows a"
    using map2_append_take [OF len la] by simp
  have d: "map (drop (shape1 a)) (rows ?r) = rows b"
    using map2_append_drop [OF len la] by simp
  from c s0 wf t d show ?thesis by simp
qed

section \<open>The subset of a hypercube\<close>

lemma take_rows_ok:
  "list_all (\<lambda>i. i < shape0 a) idx \<Longrightarrow>
   take_rows a idx = Inr \<lparr>shape1 = shape1 a, rows = map (\<lambda>i. rows a ! i) idx\<rparr>"
  by (simp add: take_rows_def take_1d_def shape0_def)

lemma cube_data_rows:
  "metric c \<noteq> ''precomputed'' \<Longrightarrow> list_all (\<lambda>i. i < shape0 dv) cube \<Longrightarrow>
   cube_data c dv cube = Inr \<lparr>shape1 = shape1 dv, rows = map (\<lambda>i. rows dv ! i) cube\<rparr>"
  by (simp add: cube_data_def take_rows_ok)

lemma cube_data_precomputed:
  "metric c = ''precomputed'' \<Longrightarrow> shape0 dv = shape1 dv \<Longrightarrow>
   list_all (\<lambda>i. i < shape0 dv) cube \<Longrightarrow>
   cube_data c dv cube = Inr (principal_submatrix dv cube)"
  by (simp add: cube_data_def take_rows_ok take_cols_def principal_submatrix_def)

lemma cube_data_shape0:
  "cube_data c dv cube = Inr cd \<Longrightarrow>
   shape0 cd = length cube \<and> list_all (\<lambda>i. i < shape0 dv) cube"
  by (auto simp: cube_data_def take_rows_def take_1d_def take_cols_def shape0_def
           split: if_splits sum.splits)

section \<open>The nodes of a hypercube\<close>

lemma fold_set_true_length:
  "length (fold (\<lambda>i acc. acc[i := True]) idx m) = length m"
  by (induction idx arbitrary: m) auto

lemma fold_set_true_nth:
  "p < length m \<Longrightarrow> fold (\<lambda>i acc. acc[i := True]) idx m ! p = (m ! p \<or> p \<in> set idx)"
proof (induction idx arbitrary: m)
  case Nil
  then show ?case by simp
next
  case (Cons i idx)
  have "p < length (m[i := True])" using Cons.prems by simp
  from Cons.IH [OF this]
  have ih: "fold (\<lambda>i acc. acc[i := True]) idx (m[i := True]) ! p
              = (m[i := True] ! p \<or> p \<in> set idx)" .
  have upd: "m[i := True] ! p = (i = p \<or> m ! p)"
    using Cons.prems by (cases "i = p") simp_all
  show ?case unfolding fold_Cons comp_apply ih upd by auto
qed

lemma mask_assign_zeros:
  assumes "mask_assign (replicate n False) idx = Inr m"
  shows "m = map (\<lambda>p. p \<in> set idx) [0..<n]"
proof -
  have m: "m = fold (\<lambda>i acc. acc[i := True]) idx (replicate n False)"
    using assms by (simp add: mask_assign_def split: if_splits)
  show ?thesis
    by (rule nth_equalityI) (simp_all add: m fold_set_true_length fold_set_true_nth)
qed

lemma mask_assign_zeros_ok:
  "list_all (\<lambda>i. i < n) idx \<Longrightarrow>
   mask_assign (replicate n False) idx = Inr (map (\<lambda>p. p \<in> set idx) [0..<n])"
proof -
  assume a: "list_all (\<lambda>i. i < n) idx"
  then obtain m where "mask_assign (replicate n False) idx = Inr m"
    by (simp add: mask_assign_def)
  then show ?thesis using mask_assign_zeros by blast
qed

lemma set_label_members:
  "length ls = length xs \<Longrightarrow>
   set (map fst (filter snd (zip xs (map (\<lambda>l. l = label) ls)))) = {p. (p, label) \<in> set (zip xs ls)}"
  by (induction ls xs rule: list_induct2) auto

lemma bool_index_label:
  assumes "bool_index cube (map (\<lambda>l. l = label) labels) = Inr members"
  shows "length labels = length cube \<and> set members = {p. (p, label) \<in> set (zip cube labels)}"
proof -
  have len: "length labels = length cube"
    using assms by (simp add: bool_index_def split: if_splits)
  have "members = map fst (filter snd (zip cube (map (\<lambda>l. l = label) labels)))"
    using assms by (simp add: bool_index_def split: if_splits)
  with set_label_members [OF len] len show ?thesis by simp
qed

lemma dict_set_fresh:
  "k \<notin> set (map fst d) \<Longrightarrow> dict_set d k v = d @ [(k, v)]"
  by (induction d) auto

lemma keys_ok_dict_set:
  assumes "keys_ok (nid, nds)"
  shows "dict_set nds nid m = nds @ [(nid, m)]" and "keys_ok (nid + 1, dict_set nds nid m)"
proof -
  have "nid \<notin> set (map fst nds)" using assms by (simp add: keys_ok_def)
  then show a: "dict_set nds nid m = nds @ [(nid, m)]" by (rule dict_set_fresh)
  show "keys_ok (nid + 1, dict_set nds nid m)"
    using assms by (simp add: a keys_ok_def)
qed

lemma label_loop_masks:
  assumes "keys_ok st" and "label_loop n cube labels ls st = Inr st'"
  shows "keys_ok st' \<and>
         map snd (snd st') = map snd (snd st) @ map (label_mask n cube labels) (filter (\<lambda>l. l \<noteq> - 1) ls)
         \<and> (filter (\<lambda>l. l \<noteq> - 1) ls \<noteq> [] \<longrightarrow> length labels = length cube)"
  using assms
proof (induction ls arbitrary: st)
  case Nil
  then show ?case by simp
next
  case (Cons l ls)
  obtain nid nds where st: "st = (nid, nds)" by (cases st)
  show ?case
  proof (cases "l = - 1")
    case True
    then have "label_loop n cube labels ls st = Inr st'"
      using Cons.prems(2) st by simp
    from Cons.IH [OF Cons.prems(1) this] True show ?thesis by simp
  next
    case False
    from Cons.prems(2) st False obtain members where
      mem: "bool_index cube (map (\<lambda>x. x = l) labels) = Inr members"
      by (auto split: sum.splits)
    from Cons.prems(2) st False mem obtain pm where
      pm: "mask_assign (replicate n False) members = Inr pm"
      and rest: "label_loop n cube labels ls (nid + 1, dict_set nds nid pm) = Inr st'"
      by (auto split: sum.splits)
    have pm_eq: "pm = label_mask n cube labels l"
      using mask_assign_zeros [OF pm] bool_index_label [OF mem]
      by (simp add: label_mask_def)
    have k: "keys_ok (nid, nds)" using Cons.prems(1) st by simp
    note ds = keys_ok_dict_set [OF k, of pm]
    from Cons.IH [OF ds(2) rest] ds(1) pm_eq st False bool_index_label [OF mem]
    show ?thesis by simp
  qed
qed

lemma take_1d_arange:
  "list_all (\<lambda>i. i < n) cube \<Longrightarrow> take_1d [0..<n] cube = Inr cube"
proof -
  assume a: "list_all (\<lambda>i. i < n) cube"
  then have "map (\<lambda>i. [0..<n] ! i) cube = cube"
    by (intro map_idI) (simp add: list_all_iff)
  with a show ?thesis by (simp add: take_1d_def)
qed

lemma np_unique_labels:
  "filter (\<lambda>l. l \<noteq> - 1) (np_unique labels) = cube_labels labels"
proof -
  have "sorted (filter (\<lambda>l. l \<noteq> - 1) (np_unique labels))"
    by (simp add: np_unique_def sorted_wrt_filter)
  moreover have "distinct (filter (\<lambda>l. l \<noteq> - 1) (np_unique labels))"
    by (simp add: np_unique_def)
  moreover have "set (filter (\<lambda>l. l \<noteq> - 1) (np_unique labels)) = set labels - {- 1}"
    by (auto simp: np_unique_def)
  moreover have "sorted (cube_labels labels)" "distinct (cube_labels labels)"
    "set (cube_labels labels) = set labels - {- 1}"
    by (auto simp: cube_labels_def)
  ultimately show ?thesis
    by (intro sorted_distinct_set_unique) simp_all
qed

lemma cluster_cube_masks:
  assumes "keys_ok st" and "cube_data c dv cube = Inr cd"
    and "cluster_cube c (shape0 dv) cube cd st = Inr st'"
  shows "keys_ok st' \<and> map snd (snd st') = map snd (snd st) @ cube_masks c dv cube"
proof -
  obtain nid nds where st: "st = (nid, nds)" by (cases st)
  have inr: "list_all (\<lambda>i. i < shape0 dv) cube"
    using cube_data_shape0 [OF assms(2)] by simp
  note t = take_1d_arange [OF inr]
  show ?thesis
  proof (cases "int (shape0 cd) \<ge> min_cluster_samples c")
    case False
    then have "st' = st" using assms(3) t by (simp add: cluster_cube_def)
    with False assms(1,2) show ?thesis by (simp add: cube_masks_def)
  next
    case gate: True
    show ?thesis
    proof (cases "fit c")
      case None
      have ma: "mask_assign (replicate (shape0 dv) False) cube
                  = Inr (whole_cube_mask (shape0 dv) cube)"
        using mask_assign_zeros_ok [OF inr] by (simp add: whole_cube_mask_def)
      have st': "st' = (nid + 1, dict_set nds nid (whole_cube_mask (shape0 dv) cube))"
        using assms(3) t gate None ma st by (simp add: cluster_cube_def)
      have k: "keys_ok (nid, nds)" using assms(1) st by simp
      note ds = keys_ok_dict_set [OF k, of "whole_cube_mask (shape0 dv) cube"]
      have cm: "cube_masks c dv cube = [whole_cube_mask (shape0 dv) cube]"
        using assms(2) gate None by (simp add: cube_masks_def)
      show ?thesis using ds st st' cm by simp
    next
      case (Some f)
      from assms(3) t gate Some obtain labels where
        lab: "f cd = Inr labels"
        and ll: "label_loop (shape0 dv) cube labels (np_unique labels) st = Inr st'"
        by (auto simp: cluster_cube_def split: sum.splits)
      have cm: "cube_masks c dv cube
                  = map (label_mask (shape0 dv) cube labels) (cube_labels labels)"
        using assms(2) gate Some lab by (simp add: cube_masks_def)
      from label_loop_masks [OF assms(1) ll] cm show ?thesis
        by (simp add: np_unique_labels)
    qed
  qed
qed

lemma cube_step_masks:
  assumes "keys_ok st" and "cube_step c dv cube st = Inr st'"
  shows "keys_ok st' \<and> map snd (snd st') = map snd (snd st) @ cube_masks c dv cube"
proof -
  from assms(2) obtain cd where cd: "cube_data c dv cube = Inr cd"
    and cc: "cluster_cube c (shape0 dv) cube cd st = Inr st'"
    by (auto simp: cube_step_def split: sum.splits)
  from cluster_cube_masks [OF assms(1) cd cc] show ?thesis .
qed

lemma cube_loop_masks:
  assumes "keys_ok st" and "cube_loop c dv cubes st = Inr st'"
  shows "keys_ok st' \<and>
         map snd (snd st') = map snd (snd st) @ concat (map (cube_masks c dv) cubes)"
  using assms
proof (induction cubes arbitrary: st)
  case Nil
  then show ?case by simp
next
  case (Cons cube cubes)
  from Cons.prems(2) obtain st1 where s1: "cube_step c dv cube st = Inr st1"
    and rest: "cube_loop c dv cubes st1 = Inr st'"
    by (auto split: sum.splits)
  from cube_step_masks [OF Cons.prems(1) s1]
  have k1: "keys_ok st1" and m1: "map snd (snd st1) = map snd (snd st) @ cube_masks c dv cube"
    by simp_all
  from Cons.IH [OF k1 rest] m1 show ?case by simp
qed

lemma keys_ok_length: "keys_ok (nid, nds) \<Longrightarrow> nid = length nds"
proof -
  assume "keys_ok (nid, nds)"
  then have "length (map fst nds) = length [0..<nid]" by (simp add: keys_ok_def)
  then show ?thesis by simp
qed

lemma label_mask_length: "length (label_mask n cube labels l) = n"
  by (simp add: label_mask_def)

lemma label_mask_nth:
  "p < n \<Longrightarrow> label_mask n cube labels l ! p = ((p, l) \<in> set (zip cube labels))"
  by (simp add: label_mask_def)

lemma label_mask_carries:
  "p < n \<Longrightarrow> label_mask n cube labels l ! p
     = (\<exists>j. j < length cube \<and> j < length labels \<and> cube ! j = p \<and> labels ! j = l)"
  by (auto simp: label_mask_nth set_zip)

lemma cube_labels_set:
  "distinct (cube_labels labels) \<and> sorted (cube_labels labels)
   \<and> set (cube_labels labels) = set labels - {- 1}"
  by (auto simp: cube_labels_def)

lemma np_any_mask_and:
  "np_any (mask_and a b) = (\<exists>p. p < length a \<and> p < length b \<and> a ! p \<and> b ! p)"
proof -
  have "np_any (mask_and a b) = (\<exists>x \<in> set (map2 (\<and>) a b). x)"
    by (simp add: np_any_def mask_and_def list_ex_iff)
  also have "\<dots> = (\<exists>p < length (map2 (\<and>) a b). map2 (\<and>) a b ! p)"
    by (metis in_set_conv_nth)
  also have "\<dots> = (\<exists>p. p < length a \<and> p < length b \<and> a ! p \<and> b ! p)"
    by auto
  finally show ?thesis .
qed

lemma zip_fst_unique:
  assumes "distinct xs" and "(p, a) \<in> set (zip xs ys)" and "(p, b) \<in> set (zip xs ys)"
  shows "a = b"
proof -
  from assms(2) obtain i where i: "i < length xs" "i < length ys" "xs ! i = p" "ys ! i = a"
    by (auto simp: set_zip)
  from assms(3) obtain j where j: "j < length xs" "j < length ys" "xs ! j = p" "ys ! j = b"
    by (auto simp: set_zip)
  from nth_eq_iff_index_eq [OF assms(1) i(1) j(1)] i(3) j(3) have "i = j"
    by simp
  with i(4) j(4) show ?thesis by simp
qed

lemma label_masks_disjoint:
  assumes "distinct cube" and "l1 \<noteq> l2"
  shows "\<not> np_any (mask_and (label_mask n cube labels l1) (label_mask n cube labels l2))"
proof
  assume "np_any (mask_and (label_mask n cube labels l1) (label_mask n cube labels l2))"
  then obtain p where p: "p < n" "label_mask n cube labels l1 ! p" "label_mask n cube labels l2 ! p"
    by (auto simp: np_any_mask_and label_mask_length)
  then have "(p, l1) \<in> set (zip cube labels)" "(p, l2) \<in> set (zip cube labels)"
    by (simp_all add: label_mask_nth)
  from zip_fst_unique [OF assms(1) this] assms(2) show False by simp
qed

lemma label_mask_within:
  "p < length (label_mask n cube labels l) \<Longrightarrow> label_mask n cube labels l ! p \<Longrightarrow> p \<in> set cube"
  by (auto simp: label_mask_length label_mask_nth dest: set_zip_leftD)

lemma line_loop: "cube_loop threshold_clusterer line_points line_cubes (0, [])
   = Inr (3, [(0, [True, True, False, False, False]),
              (1, [False, True, False, False, False]),
              (2, [False, False, False, True, True])])"
  by (simp add: threshold_clusterer_def line_points_def line_cubes_def cube_step_def cube_data_def take_rows_def take_1d_def cluster_cube_def min_cluster_samples_def shape0_def np_unique_def bool_index_def mask_assign_def threshold_fit_def)

lemma cube_data_ok:
  assumes "metric c = ''precomputed'' \<longrightarrow> shape0 dv = shape1 dv"
    and "list_all (\<lambda>i. i < shape0 dv) cube"
  shows "\<exists>cd. cube_data c dv cube = Inr cd \<and> shape0 cd = length cube"
proof (cases "metric c = ''precomputed''")
  case True
  with assms have "shape0 dv = shape1 dv" by simp
  from cube_data_precomputed [OF True this assms(2)] show ?thesis
    by (simp add: principal_submatrix_def shape0_def)
next
  case False
  from cube_data_rows [OF False assms(2)] show ?thesis
    by (simp add: shape0_def)
qed

lemma cube_step_below_gate:
  assumes "metric c = ''precomputed'' \<longrightarrow> shape0 dv = shape1 dv"
    and "list_all (\<lambda>i. i < shape0 dv) cube"
    and "int (length cube) < min_cluster_samples c"
  shows "cube_step c dv cube st = Inr st"
proof -
  from cube_data_ok [OF assms(1,2)] obtain cd where
    cd: "cube_data c dv cube = Inr cd" "shape0 cd = length cube" by blast
  show ?thesis
    using cd assms(3) take_1d_arange [OF assms(2)]
    by (simp add: cube_step_def cluster_cube_def)
qed

lemma cube_loop_below_gate:
  assumes "metric c = ''precomputed'' \<longrightarrow> shape0 dv = shape1 dv"
    and "list_all (\<lambda>cube. list_all (\<lambda>i. i < shape0 dv) cube
            \<and> int (length cube) < min_cluster_samples c) cubes"
  shows "cube_loop c dv cubes st = Inr st"
  using assms(2)
proof (induction cubes)
  case Nil
  then show ?case by simp
next
  case (Cons cube cubes)
  then have "cube_step c dv cube st = Inr st"
    using cube_step_below_gate [OF assms(1)] by simp
  with Cons show ?case by simp
qed

lemma mapper_map_graph:
  assumes "mapper_map d cov c = Inr (GraphDict g)"
  shows "\<exists>nid masks positions sizes adj ids.
           shape0 (frame_values d) = n_points cov
           \<and> cube_loop c (frame_values d) (hypercubes cov) (0, []) = Inr (nid, masks)
           \<and> masks \<noteq> []
           \<and> positions_loop (cover_data cov) masks (enumerate_list (dict_keys masks))
                (replicate (length masks) (replicate (shape1 (cover_data cov)) (Num 0)),
                 replicate (length masks) [Num 0]) = Inr (positions, sizes)
           \<and> edges_loop masks (combinations2 (dict_keys masks))
                (df_nan (dict_keys masks) (dict_keys masks)) = Inr adj
           \<and> ids_of_nodes [0..<shape0 (frame_values d)] masks = Inr ids
           \<and> nodes g = ids \<and> edges g = df_stack_index adj \<and> adj_matrix g = adj
           \<and> sample_names g = (case frame_index d of Some ix \<Rightarrow> map Label ix
                                 | None \<Rightarrow> map Row [0..<shape0 (frame_values d)])
           \<and> node_keys g = dict_keys masks
           \<and> node_positions g = positions \<and> node_sizes g = sizes"
  using assms
  by (auto simp: mapper_map_def Let_def split: if_splits sum.splits prod.splits)

section \<open>The masks and the point ids of the nodes\<close>

lemma zip_as_map_nth:
  "length m = length xs \<Longrightarrow> zip xs m = map (\<lambda>i. (xs ! i, m ! i)) [0..<length m]"
  by (rule nth_equalityI) auto

lemma bool_index_member_points:
  assumes "bool_index xs m = Inr sel"
  shows "length m = length xs \<and> sel = map (\<lambda>p. xs ! p) (member_points m)"
proof -
  have len: "length m = length xs"
    using assms by (simp add: bool_index_def split: if_splits)
  have "sel = map fst (filter snd (zip xs m))"
    using assms by (simp add: bool_index_def split: if_splits)
  also have "\<dots> = map (\<lambda>p. xs ! p) (member_points m)"
    by (simp add: zip_as_map_nth [OF len] filter_map o_def member_points_def)
  finally show ?thesis using len by simp
qed

lemma member_points_arange:
  "length m = n \<Longrightarrow> map (\<lambda>p. [0..<n] ! p) (member_points m) = member_points m"
  by (intro map_idI) (auto simp: member_points_def)

lemma set_member_points: "set (member_points m) = {p. p < length m \<and> m ! p}"
  by (auto simp: member_points_def)

lemma ids_of_nodes_member_points:
  assumes "ids_of_nodes [0..<n] nds = Inr ids"
  shows "ids = map (\<lambda>(k, m). (k, member_points m)) nds \<and> list_all (\<lambda>(k, m). length m = n) nds"
  using assms
proof (induction nds arbitrary: ids)
  case Nil
  then show ?case by simp
next
  case (Cons km nds)
  obtain k m where km: "km = (k, m)" by (cases km)
  from Cons.prems km obtain sel rest where
    sel: "bool_index [0..<n] m = Inr sel" and rest: "ids_of_nodes [0..<n] nds = Inr rest"
    and ids: "ids = (k, sel) # rest"
    by (auto split: sum.splits)
  from bool_index_member_points [OF sel] have len: "length m = n" and s: "sel = member_points m"
    by (simp_all add: member_points_arange)
  from Cons.IH [OF rest] ids km len s show ?case by simp
qed

lemma cube_masks_length:
  "m \<in> set (cube_masks c dv cube) \<Longrightarrow> length m = shape0 dv"
  by (auto simp: cube_masks_def label_mask_length whole_cube_mask_def
           split: sum.splits if_splits option.splits)

lemma label_mask_has_point:
  assumes "l \<in> set labels" and "length labels = length cube" and "list_all (\<lambda>i. i < n) cube"
  shows "\<exists>p < n. label_mask n cube labels l ! p"
proof -
  from assms(1) obtain j where j: "j < length labels" "labels ! j = l"
    by (auto simp: in_set_conv_nth)
  with assms(2) have jc: "j < length cube" by simp
  with assms(3) have pn: "cube ! j < n" by (simp add: list_all_length)
  from label_mask_carries [OF pn, of cube labels l] j jc
  have "label_mask n cube labels l ! (cube ! j)" by blast
  with pn show ?thesis by blast
qed

lemma whole_cube_mask_has_point:
  assumes "cube \<noteq> []" and "list_all (\<lambda>i. i < n) cube"
  shows "\<exists>p < n. whole_cube_mask n cube ! p"
proof -
  from assms obtain p where p: "p \<in> set cube" "p < n"
    by (cases cube) auto
  then have "whole_cube_mask n cube ! p" by (simp add: whole_cube_mask_def)
  with p show ?thesis by blast
qed

lemma cluster_cube_has_point:
  assumes "keys_ok st" and "cube_data c dv cube = Inr cd"
    and "cluster_cube c (shape0 dv) cube cd st = Inr st'"
    and "fit c \<noteq> None \<or> 1 \<le> min_cluster_samples c \<or> cube \<noteq> []"
    and "m \<in> set (cube_masks c dv cube)"
  shows "\<exists>p < shape0 dv. m ! p"
proof -
  have inr: "list_all (\<lambda>i. i < shape0 dv) cube" and sz: "shape0 cd = length cube"
    using cube_data_shape0 [OF assms(2)] by simp_all
  note t = take_1d_arange [OF inr]
  have gate: "int (shape0 cd) \<ge> min_cluster_samples c"
    using assms(2,5) by (auto simp: cube_masks_def split: if_splits)
  show ?thesis
  proof (cases "fit c")
    case None
    have m: "m = whole_cube_mask (shape0 dv) cube"
      using assms(2,5) gate None by (simp add: cube_masks_def)
    have "cube \<noteq> []" using assms(4) None gate sz by auto
    from whole_cube_mask_has_point [OF this inr] m show ?thesis by simp
  next
    case (Some f)
    from assms(3) t gate Some obtain labels where
      lab: "f cd = Inr labels"
      and ll: "label_loop (shape0 dv) cube labels (np_unique labels) st = Inr st'"
      by (auto simp: cluster_cube_def split: sum.splits)
    from assms(2,5) gate Some lab obtain l where
      l: "l \<in> set (cube_labels labels)" and m: "m = label_mask (shape0 dv) cube labels l"
      by (auto simp: cube_masks_def)
    from l have ne: "filter (\<lambda>l. l \<noteq> - 1) (np_unique labels) \<noteq> []"
      by (auto simp: np_unique_labels)
    from label_loop_masks [OF assms(1) ll] ne have len: "length labels = length cube"
      by simp
    from l have "l \<in> set labels" using cube_labels_set by auto
    from label_mask_has_point [OF this len inr] m show ?thesis by simp
  qed
qed

lemma cube_loop_has_point:
  assumes "keys_ok st" and "cube_loop c dv cubes st = Inr st'"
    and "fit c \<noteq> None \<or> 1 \<le> min_cluster_samples c \<or> [] \<notin> set cubes"
    and "m \<in> set (concat (map (cube_masks c dv) cubes))"
  shows "\<exists>p < shape0 dv. m ! p"
  using assms
proof (induction cubes arbitrary: st)
  case Nil
  then show ?case by simp
next
  case (Cons cube cubes)
  from Cons.prems(2) obtain st1 where s1: "cube_step c dv cube st = Inr st1"
    and rest: "cube_loop c dv cubes st1 = Inr st'"
    by (auto split: sum.splits)
  from s1 obtain cd where cd: "cube_data c dv cube = Inr cd"
    and cc: "cluster_cube c (shape0 dv) cube cd st = Inr st1"
    by (auto simp: cube_step_def split: sum.splits)
  from cube_step_masks [OF Cons.prems(1) s1] have k1: "keys_ok st1" by simp
  have h: "fit c \<noteq> None \<or> 1 \<le> min_cluster_samples c \<or> cube \<noteq> []"
    and h': "fit c \<noteq> None \<or> 1 \<le> min_cluster_samples c \<or> [] \<notin> set cubes"
    using Cons.prems(3) by auto
  from Cons.prems(4) consider "m \<in> set (cube_masks c dv cube)"
    | "m \<in> set (concat (map (cube_masks c dv) cubes))" by auto
  then show ?case
  proof cases
    case 1
    from cluster_cube_has_point [OF Cons.prems(1) cd cc h 1] show ?thesis .
  next
    case 2
    from Cons.IH [OF k1 rest h' 2] show ?thesis .
  qed
qed

lemmas eval_defs =
  mapper_map_def Let_def shape0_def cube_step_def cube_data_def take_rows_def take_1d_def
  cluster_cube_def min_cluster_samples_def np_unique_def bool_index_def mask_assign_def
  dict_keys_def dict_get_def enumerate_list_def np_average_axis0_def df_nan_def
  df_loc_set_def df_stack_index_def np_any_def mask_and_def numeral_2_eq_2

lemma gap_map: "mapper_map pair_frame gap_cover nofit_clusterer = Inr (GraphDict gap_graph)"
  by (simp add: eval_defs pair_frame_def gap_cover_def nofit_clusterer_def gap_graph_def)

lemma gap_loop:
  "cube_loop nofit_clusterer (frame_values pair_frame) (hypercubes gap_cover) (0, [])
     = Inr (2, [(0, [True, True]), (1, [False, False])])"
  by (simp add: eval_defs pair_frame_def gap_cover_def nofit_clusterer_def)

lemma line_map: "mapper_map line_frame line_cover threshold_clusterer = Inr (GraphDict line_graph)"
  by (simp add: eval_defs line_frame_def line_cover_def line_points_def line_projected_def
      line_cubes_def threshold_clusterer_def threshold_fit_def line_graph_def)

section \<open>The positions and sizes of the nodes\<close>

lemma fadd_zero: "fadd (Num 0) x = x"
  by (cases x) simp_all

lemma map2_fadd_zeros:
  "length xs = w \<Longrightarrow> map2 fadd (replicate w (Num 0)) xs = xs"
  by (rule nth_equalityI) (simp_all add: fadd_zero)

lemma np_average_selected:
  "np_average_axis0 \<lparr>shape1 = shape1 cd, rows = map (\<lambda>p. rows cd ! p) ids\<rparr>
     = mean_position cd ids"
  by (simp add: np_average_axis0_def mean_position_def shape0_def o_def)

lemma mean_position_length: "length (mean_position cd ids) = shape1 cd"
  by (simp add: mean_position_def)

lemma dict_get_nth:
  "distinct (map fst d) \<Longrightarrow> i < length d \<Longrightarrow> dict_get d (fst (d ! i)) = Some (snd (d ! i))"
  by (simp add: dict_get_def)

lemma positions_loop_rows:
  assumes "positions_loop cd nds ps (P, S) = Inr (P', S')" and "distinct (map fst ps)"
  shows "length P' = length P \<and> length S' = length S
         \<and> (\<forall>(i, k) \<in> set ps. \<exists>m. dict_get nds k = Some m
               \<and> P' ! i = map2 fadd (P ! i) (mean_position cd (member_points m))
               \<and> S' ! i = map (\<lambda>s. fadd s (Num (real (length (member_points m))))) (S ! i))
         \<and> (\<forall>i. i \<notin> set (map fst ps) \<longrightarrow> P' ! i = P ! i \<and> S' ! i = S ! i)"
  using assms
proof (induction ps arbitrary: P S)
  case Nil
  then show ?case by simp
next
  case (Cons ik ps)
  obtain i k where ik: "ik = (i, k)" by (cases ik)
  from Cons.prems(1) ik obtain m where m: "dict_get nds k = Some m"
    by (auto split: option.splits)
  from Cons.prems(1) ik m obtain sel where sel: "bool_index (rows cd) m = Inr sel"
    by (auto split: sum.splits)
  from bool_index_member_points [OF sel]
  have sel_eq: "sel = map (\<lambda>p. rows cd ! p) (member_points m)" by simp
  let ?P1 = "P[i := map2 fadd (P ! i) (mean_position cd (member_points m))]"
  let ?S1 = "S[i := map (\<lambda>s. fadd s (Num (real (length (member_points m))))) (S ! i)]"
  from Cons.prems(1) ik m sel
  have bounds: "i < length P \<and> i < length S"
    by (auto simp: Let_def split: if_splits)
  from Cons.prems(1) ik m sel bounds
  have rest: "positions_loop cd nds ps (?P1, ?S1) = Inr (P', S')"
    by (simp add: Let_def sel_eq np_average_selected shape0_def)
  from Cons.prems(2) ik have d: "distinct (map fst ps)" and fresh: "i \<notin> set (map fst ps)"
    by simp_all
  from Cons.IH [OF rest d]
  have len: "length P' = length P" "length S' = length S"
    and each: "\<forall>(i, k) \<in> set ps. \<exists>m. dict_get nds k = Some m
               \<and> P' ! i = map2 fadd (?P1 ! i) (mean_position cd (member_points m))
               \<and> S' ! i = map (\<lambda>s. fadd s (Num (real (length (member_points m))))) (?S1 ! i)"
    and other: "\<forall>j. j \<notin> set (map fst ps) \<longrightarrow> P' ! j = ?P1 ! j \<and> S' ! j = ?S1 ! j"
    by simp_all
  have here: "P' ! i = map2 fadd (P ! i) (mean_position cd (member_points m))
              \<and> S' ! i = map (\<lambda>s. fadd s (Num (real (length (member_points m))))) (S ! i)"
    using other fresh bounds by simp
  have there: "\<forall>(j, k) \<in> set ps. \<exists>m. dict_get nds k = Some m
               \<and> P' ! j = map2 fadd (P ! j) (mean_position cd (member_points m))
               \<and> S' ! j = map (\<lambda>s. fadd s (Num (real (length (member_points m))))) (S ! j)"
  proof (clarify)
    fix j k' assume jk: "(j, k') \<in> set ps"
    then have "j \<in> set (map fst ps)" by force
    with fresh have "j \<noteq> i" by auto
    with each jk show "\<exists>m. dict_get nds k' = Some m
               \<and> P' ! j = map2 fadd (P ! j) (mean_position cd (member_points m))
               \<and> S' ! j = map (\<lambda>s. fadd s (Num (real (length (member_points m))))) (S ! j)"
      by fastforce
  qed
  have others: "\<forall>j. j \<notin> set (map fst (ik # ps)) \<longrightarrow> P' ! j = P ! j \<and> S' ! j = S ! j"
    using other ik by auto
  from len here there others m ik show ?case by auto
qed

section \<open>The adjacency table\<close>

lemma set_combinations2:
  fixes xs :: "'a::linorder list"
  shows "sorted_wrt (<) xs \<Longrightarrow>
   set (combinations2 xs) = {(x, y). x \<in> set xs \<and> y \<in> set xs \<and> x < y}"
proof (induction xs)
  case Nil
  then show ?case by simp
next
  case (Cons x xs)
  then have lt: "\<forall>y \<in> set xs. x < y" and s: "sorted_wrt (<) xs" by simp_all
  from Cons.IH [OF s] lt show ?case by (auto dest: less_asym)
qed

lemma set_combinations2_upt:
  "set (combinations2 [0..<k]) = {(x, y). x < y \<and> y < k}"
  using set_combinations2 [of "[0..<k]"] by auto

lemma df_loc_set_present:
  "r \<in> set (df_index df) \<Longrightarrow> c \<in> set (df_columns df) \<Longrightarrow>
   df_loc_set df r c v = df\<lparr>df_cells := (df_cells df)((r, c) := Some v)\<rparr>"
  by (simp add: df_loc_set_def)

lemma edges_loop_cells:
  assumes "edges_loop nds ps adj = Inr adj'"
    and "\<forall>(a, b) \<in> set ps. a \<in> set (df_index adj) \<and> b \<in> set (df_columns adj)"
  shows "df_index adj' = df_index adj \<and> df_columns adj' = df_columns adj
         \<and> (\<forall>a b. df_cells adj' (a, b) =
               (if (a, b) \<in> set ps
                   \<and> (\<exists>m1 m2. dict_get nds a = Some m1 \<and> dict_get nds b = Some m2
                         \<and> np_any (mask_and m1 m2))
                then Some 1 else df_cells adj (a, b)))"
  using assms
proof (induction ps arbitrary: adj)
  case Nil
  then show ?case by simp
next
  case (Cons kk ps)
  obtain k1 k2 where kk: "kk = (k1, k2)" by (cases kk)
  from Cons.prems(1) kk obtain m1 m2 where
    m: "dict_get nds k1 = Some m1" "dict_get nds k2 = Some m2"
    by (auto split: option.splits)
  let ?adj1 = "if np_any (mask_and m1 m2) then df_loc_set adj k1 k2 1 else adj"
  from Cons.prems(1) kk m have rest: "edges_loop nds ps ?adj1 = Inr adj'"
    by simp
  from Cons.prems(2) kk have here: "k1 \<in> set (df_index adj)" "k2 \<in> set (df_columns adj)"
    by simp_all
  have ix: "df_index ?adj1 = df_index adj" "df_columns ?adj1 = df_columns adj"
    using here by (simp_all add: df_loc_set_present)
  have cells1: "\<And>a b. df_cells ?adj1 (a, b) =
      (if (a, b) = (k1, k2) \<and> np_any (mask_and m1 m2) then Some 1 else df_cells adj (a, b))"
    using here by (simp add: df_loc_set_present)
  have pre: "\<forall>(a, b) \<in> set ps. a \<in> set (df_index ?adj1) \<and> b \<in> set (df_columns ?adj1)"
    using Cons.prems(2) by (simp only: ix) auto
  from Cons.IH [OF rest pre]
  have ix': "df_index adj' = df_index ?adj1" "df_columns adj' = df_columns ?adj1"
    and cells': "\<And>a b. df_cells adj' (a, b) =
               (if (a, b) \<in> set ps
                   \<and> (\<exists>m1 m2. dict_get nds a = Some m1 \<and> dict_get nds b = Some m2
                         \<and> np_any (mask_and m1 m2))
                then Some 1 else df_cells ?adj1 (a, b))"
    by blast+
  have "\<And>a b. df_cells adj' (a, b) =
               (if (a, b) \<in> set (kk # ps)
                   \<and> (\<exists>m1 m2. dict_get nds a = Some m1 \<and> dict_get nds b = Some m2
                         \<and> np_any (mask_and m1 m2))
                then Some 1 else df_cells adj (a, b))"
    unfolding cells' cells1 using m kk by auto
  with ix ix' show ?case by simp
qed

section \<open>The projection stage\<close>

text \<open>
  C6. Two lenses whose outputs on the same \<open>n\<close>-row input have the widths \<open>w1\<close> and
  \<open>w2\<close>. When the verbosity is below 1, or the metric of both lenses is readable, the
  projection has the shape \<open>(n, w1 + w2)\<close>, its first \<open>w1\<close> columns are the first lens's
  output and its other columns are the output of the second lens on the original input
  (the second lens never sees the output of the first). Otherwise the progress output
  raises an attribute error and there is no projection.
\<close>

theorem filter_two_lenses:
  assumes "fit_transform lens1 d = Inr p1" and "fit_transform lens2 d = Inr p2"
    and "shape0 p1 = n" and "shape0 p2 = n"
    and "wf_ndarray p1" and "wf_ndarray p2"
  shows "(verbose < 1 \<or> (metric_readable lens1 \<and> metric_readable lens2) \<longrightarrow>
            (\<exists>r. mapper_filter verbose (Some d) (Some [lens1, lens2]) = Inr (Some r)
               \<and> shape0 r = n \<and> shape1 r = shape1 p1 + shape1 p2 \<and> wf_ndarray r
               \<and> map (take (shape1 p1)) (rows r) = rows p1
               \<and> map (drop (shape1 p1)) (rows r) = rows p2))
         \<and> (verbose \<ge> 1 \<and> \<not> (metric_readable lens1 \<and> metric_readable lens2) \<longrightarrow>
              mapper_filter verbose (Some d) (Some [lens1, lens2]) = Inl AttributeError)"
proof (intro conjI impI)
  assume ok: "verbose < 1 \<or> (metric_readable lens1 \<and> metric_readable lens2)"
  then have l1: "filter_log verbose lens1 = Inr ()" and l2: "filter_log verbose lens2 = Inr ()"
    by (auto simp: filter_log_readable)
  have "shape0 p1 = shape0 p2" using assms(3,4) by simp
  from np_concatenate_axis1_cols [OF this assms(5,6)]
  obtain r where r: "np_concatenate_axis1 p1 p2 = Inr r" "shape0 r = shape0 p1"
    "shape1 r = shape1 p1 + shape1 p2" "wf_ndarray r"
    "map (take (shape1 p1)) (rows r) = rows p1" "map (drop (shape1 p1)) (rows r) = rows p2"
    by blast
  have "mapper_filter verbose (Some d) (Some [lens1, lens2]) = Inr (Some r)"
    using assms(1,2) r(1) l1 l2 by (simp add: mapper_filter_def)
  with r assms(3)
  show "\<exists>r. mapper_filter verbose (Some d) (Some [lens1, lens2]) = Inr (Some r)
               \<and> shape0 r = n \<and> shape1 r = shape1 p1 + shape1 p2 \<and> wf_ndarray r
               \<and> map (take (shape1 p1)) (rows r) = rows p1
               \<and> map (drop (shape1 p1)) (rows r) = rows p2"
    by simp
next
  assume bad: "verbose \<ge> 1 \<and> \<not> (metric_readable lens1 \<and> metric_readable lens2)"
  show "mapper_filter verbose (Some d) (Some [lens1, lens2]) = Inl AttributeError"
  proof (cases "metric_readable lens1")
    case False
    with bad have "filter_log verbose lens1 = Inl AttributeError"
      by (simp add: filter_log_readable)
    then show ?thesis by (simp add: mapper_filter_def)
  next
    case True
    with bad have l1: "filter_log verbose lens1 = Inr ()"
      and l2: "filter_log verbose lens2 = Inl AttributeError"
      by (simp_all add: filter_log_readable)
    then show ?thesis using assms(1) by (simp add: mapper_filter_def)
  qed
qed

theorem filter_two_lenses_witness:
  "fit_transform sum_lens two_points = Inr \<lparr>shape1 = 1, rows = [[3], [7]]\<rparr>
   \<and> fit_transform id_lens two_points = Inr two_points
   \<and> metric_readable sum_lens \<and> metric_readable id_lens
   \<and> (\<exists>r. mapper_filter 1 (Some two_points) (Some [sum_lens, id_lens]) = Inr (Some r)
        \<and> shape0 r = 2 \<and> shape1 r = 3 \<and> wf_ndarray r
        \<and> map (take 1) (rows r) = [[3], [7]]
        \<and> map (drop 1) (rows r) = rows two_points)
   \<and> \<not> metric_readable bare_lens
   \<and> mapper_filter 1 (Some two_points) (Some [sum_lens, bare_lens]) = Inl AttributeError"
proof -
  have h1: "fit_transform sum_lens two_points = Inr \<lparr>shape1 = 1, rows = [[3], [7]]\<rparr>"
    by (simp add: sum_lens_def row_sums_def two_points_def)
  have h2: "fit_transform id_lens two_points = Inr two_points"
    by (simp add: id_lens_def)
  have h2': "fit_transform bare_lens two_points = Inr \<lparr>shape1 = 1, rows = [[3], [7]]\<rparr>"
    by (simp add: bare_lens_def row_sums_def two_points_def)
  have h3: "shape0 \<lparr>shape1 = 1, rows = [[3::real], [7]]\<rparr> = 2" "shape0 two_points = 2"
    by (simp_all add: shape0_def two_points_def)
  have h4: "wf_ndarray \<lparr>shape1 = 1, rows = [[3::real], [7]]\<rparr>" "wf_ndarray two_points"
    by (simp_all add: wf_ndarray_def two_points_def)
  have m: "metric_readable sum_lens" "metric_readable id_lens" "\<not> metric_readable bare_lens"
    by (simp_all add: metric_readable_def sum_lens_def id_lens_def bare_lens_def)
  from filter_two_lenses
         [of sum_lens two_points "\<lparr>shape1 = 1, rows = [[3], [7]]\<rparr>" id_lens two_points 2 1,
          OF h1 h2 h3 h4]
       filter_two_lenses
         [of sum_lens two_points "\<lparr>shape1 = 1, rows = [[3], [7]]\<rparr>" bare_lens
             "\<lparr>shape1 = 1, rows = [[3], [7]]\<rparr>" 2 1,
          OF h1 h2' h3(1) h3(1) h4(1) h4(1)]
       h1 h2 m
  show ?thesis by (simp add: two_points_def numeral_3_eq_3)
qed

theorem bare_lens_raises:
  "fit_transform bare_lens two_points = Inr \<lparr>shape1 = 1, rows = [[3], [7]]\<rparr>
   \<and> fit_transform id_lens two_points = Inr two_points
   \<and> mapper_filter 1 (Some two_points) (Some [bare_lens, id_lens]) = Inl AttributeError
   \<and> mapper_filter 0 (Some two_points) (Some [bare_lens, id_lens])
       = Inr (Some \<lparr>shape1 = 3, rows = [[3, 1, 2], [7, 3, 4]]\<rparr>)"
  by (simp add: mapper_filter_def filter_log_def bare_lens_def id_lens_def row_sums_def
      two_points_def np_concatenate_axis1_def shape0_def)

text \<open>
  C9. With no lens the projection returns the points unchanged. This holds for the empty
  list of lenses. When the argument is left out, \<open>lens\<close> is \<open>None\<close> and \<open>len(lens)\<close>
  raises, although the comments of the function say that the data is then taken as
  projected already. Both hold at every verbosity.
\<close>

theorem mapper_filter_lens_absent:
  "mapper_filter verbose (Some two_points) None = Inl TypeError
   \<and> mapper_filter verbose (Some two_points) (Some []) = Inr (Some two_points)"
  by (simp add: mapper_filter_def)

section \<open>The preconditions of the mapping stage\<close>



text \<open>
  C8. When the number of rows of the raw data differs from the point count of the cover,
  the mapping stage fails with an assertion error: whatever the hypercubes and the
  clusterer are, none of them is reached.
\<close>

theorem mapper_map_row_mismatch:
  "shape0 (frame_values d) \<noteq> n_points cov \<Longrightarrow> mapper_map d cov c = Inl AssertionError"
  by (simp add: mapper_map_def)

theorem mapper_map_row_mismatch_witness:
  "shape0 (frame_values \<lparr>frame_index = None, frame_values = dist3\<rparr>) \<noteq> n_points cover2
   \<and> mapper_map \<lparr>frame_index = None, frame_values = dist3\<rparr> cover2 failing_clusterer
       = Inl AssertionError"
proof -
  have h: "shape0 (frame_values \<lparr>frame_index = None, frame_values = dist3\<rparr>) \<noteq> n_points cover2"
    by (simp add: dist3_def cover2_def shape0_def)
  from mapper_map_row_mismatch [OF h] h show ?thesis by simp
qed

section \<open>The nodes of the mapping stage\<close>

text \<open>
  C2. When the loop over the hypercubes ends, the node ids are \<open>0, 1, ...\<close> in the order
  of creation, with none skipped or used twice, and the masks of the nodes are, hypercube
  after hypercube, the masks of \<open>cube_masks\<close>: nothing for a hypercube that the gate on
  the size of the subset rejects, and otherwise one mask for every distinct label of the
  fit other than \<open>-1\<close>, in ascending order of the labels, that marks exactly the points
  of the hypercube that carry the label.
\<close>

theorem nodes_of_hypercubes:
  assumes "cube_loop c dv cubes (0, []) = Inr (nid, nds)"
  shows "map fst nds = [0..<length nds] \<and> nid = length nds
         \<and> map snd nds = concat (map (cube_masks c dv) cubes)
         \<and> (\<forall>labels. distinct (cube_labels labels)
               \<and> set (cube_labels labels) = set labels - {- 1})
         \<and> (\<forall>n cube labels l p. p < n \<longrightarrow>
               label_mask n cube labels l ! p
                 = (\<exists>j. j < length cube \<and> j < length labels \<and> cube ! j = p \<and> labels ! j = l))"
proof -
  have k0: "keys_ok (0, [])" by (simp add: keys_ok_def)
  from cube_loop_masks [OF k0 assms]
  have k: "keys_ok (nid, nds)" and m: "map snd nds = concat (map (cube_masks c dv) cubes)"
    by simp_all
  from keys_ok_length [OF k] k m show ?thesis
    by (simp add: keys_ok_def cube_labels_set label_mask_carries)
qed

theorem nodes_of_hypercubes_witness:
  "cube_loop threshold_clusterer line_points line_cubes (0, [])
     = Inr (3, [(0, [True, True, False, False, False]),
                (1, [False, True, False, False, False]),
                (2, [False, False, False, True, True])])
   \<and> concat (map (cube_masks threshold_clusterer line_points) line_cubes)
     = [[True, True, False, False, False],
        [False, True, False, False, False],
        [False, False, False, True, True]]
   \<and> map (\<lambda>cube. length (cube_masks threshold_clusterer line_points cube)) line_cubes = [1, 2, 0]"
proof -
  have cm: "map (\<lambda>cube. length (cube_masks threshold_clusterer line_points cube)) line_cubes
              = [1, 2, 0]"
    by (simp add: threshold_clusterer_def line_points_def line_cubes_def cube_masks_def
        cube_data_def take_rows_def take_1d_def min_cluster_samples_def shape0_def
        cube_labels_def threshold_fit_def)
  from nodes_of_hypercubes [OF line_loop] line_loop cm show ?thesis by simp
qed

text \<open>
  C10. The nodes that a clusterer with a \<open>fit\<close> creates from one hypercube, an index set
  (no index twice): their masks are pairwise disjoint, and every mask marks only points
  of the hypercube.
\<close>

theorem hypercube_nodes_disjoint:
  assumes "fit c = Some f" and "distinct cube" and "keys_ok (nid, nds)"
    and "cube_step c dv cube (nid, nds) = Inr (nid', nds')"
  shows "\<exists>new. map snd nds' = map snd nds @ new
           \<and> (\<forall>i < length new. \<forall>j < length new. i \<noteq> j \<longrightarrow>
                \<not> np_any (mask_and (new ! i) (new ! j)))
           \<and> (\<forall>m \<in> set new. \<forall>p < length m. m ! p \<longrightarrow> p \<in> set cube)"
proof -
  from cube_step_masks [OF assms(3,4)]
  have new: "map snd nds' = map snd nds @ cube_masks c dv cube" by simp
  have "\<exists>ls. distinct ls \<and> (\<exists>labels. cube_masks c dv cube = map (label_mask (shape0 dv) cube labels) ls)"
  proof (cases "\<exists>cd labels. cube_data c dv cube = Inr cd
                  \<and> int (shape0 cd) \<ge> min_cluster_samples c \<and> f cd = Inr labels")
    case True
    then obtain cd labels where "cube_data c dv cube = Inr cd"
      "int (shape0 cd) \<ge> min_cluster_samples c" "f cd = Inr labels" by blast
    then have "cube_masks c dv cube = map (label_mask (shape0 dv) cube labels) (cube_labels labels)"
      using assms(1) by (simp add: cube_masks_def)
    then show ?thesis using cube_labels_set by blast
  next
    case False
    then have "cube_masks c dv cube = []"
      using assms(1) by (auto simp: cube_masks_def split: sum.splits)
    then show ?thesis by (intro exI [of _ "[]"]) simp
  qed
  then obtain ls labels where ls: "distinct ls"
    and cm: "cube_masks c dv cube = map (label_mask (shape0 dv) cube labels) ls"
    by blast
  have d: "\<forall>i < length (cube_masks c dv cube). \<forall>j < length (cube_masks c dv cube). i \<noteq> j \<longrightarrow>
             \<not> np_any (mask_and (cube_masks c dv cube ! i) (cube_masks c dv cube ! j))"
  proof (intro allI impI)
    fix i j
    assume i: "i < length (cube_masks c dv cube)" and j: "j < length (cube_masks c dv cube)"
      and ne: "i \<noteq> j"
    from i j have li: "i < length ls" and lj: "j < length ls" by (simp_all add: cm)
    from nth_eq_iff_index_eq [OF ls li lj] ne have "ls ! i \<noteq> ls ! j" by simp
    from label_masks_disjoint [OF assms(2) this] li lj
    show "\<not> np_any (mask_and (cube_masks c dv cube ! i) (cube_masks c dv cube ! j))"
      by (simp add: cm)
  qed
  have w: "\<forall>m \<in> set (cube_masks c dv cube). \<forall>p < length m. m ! p \<longrightarrow> p \<in> set cube"
    using label_mask_within by (auto simp: cm)
  from new d w show ?thesis by blast
qed

theorem hypercube_nodes_disjoint_witness:
  "fit threshold_clusterer = Some threshold_fit \<and> distinct [1, 3, 4 :: nat]
   \<and> keys_ok (1, [(0, [True, True, False, False, False])])
   \<and> cube_step threshold_clusterer line_points [1, 3, 4]
         (1, [(0, [True, True, False, False, False])])
       = Inr (3, [(0, [True, True, False, False, False]),
                  (1, [False, True, False, False, False]),
                  (2, [False, False, False, True, True])])
   \<and> \<not> np_any (mask_and [False, True, False, False, False] [False, False, False, True, True])
   \<and> (\<exists>new. [[True, True, False, False, False], [False, True, False, False, False],
               [False, False, False, True, True]]
              = [[True, True, False, False, False]] @ new
            \<and> (\<exists>a \<in> set new. \<exists>b \<in> set new. a \<noteq> b \<and> \<not> np_any (mask_and a b)))"
proof -
  have h1: "fit threshold_clusterer = Some threshold_fit"
    by (simp add: threshold_clusterer_def)
  have h2: "distinct [1, 3, 4 :: nat]" by simp
  have h3: "keys_ok (1, [(0, [True, True, False, False, False])])"
    by (simp add: keys_ok_def)
  have h4: "cube_step threshold_clusterer line_points [1, 3, 4]
              (1, [(0, [True, True, False, False, False])])
            = Inr (3, [(0, [True, True, False, False, False]),
                       (1, [False, True, False, False, False]),
                       (2, [False, False, False, True, True])])"
    by (simp add: threshold_clusterer_def line_points_def cube_step_def cube_data_def
        take_rows_def take_1d_def cluster_cube_def min_cluster_samples_def shape0_def
        np_unique_def bool_index_def mask_assign_def threshold_fit_def)
  have h5: "\<not> np_any (mask_and [False, True, False, False, False]
                                  [False, False, False, True, True])"
    by (simp add: np_any_def mask_and_def)
  from hypercube_nodes_disjoint [OF h1 h2 h3 h4] h1 h2 h3 h4 h5
  show ?thesis by (auto simp: np_any_def mask_and_def)
qed

text \<open>
  C7. When the loop over the hypercubes ends with no node, the mapping stage returns the
  empty dict and raises nothing; this is the case when the subset of every hypercube is
  smaller than the minimum number of samples.
\<close>

theorem no_nodes_empty_graph:
  assumes "shape0 (frame_values d) = n_points cov"
    and "metric c = ''precomputed'' \<longrightarrow> shape0 (frame_values d) = shape1 (frame_values d)"
  shows "(\<forall>nid. cube_loop c (frame_values d) (hypercubes cov) (0, []) = Inr (nid, []) \<longrightarrow>
            mapper_map d cov c = Inr EmptyDict)
         \<and> (list_all (\<lambda>cube. list_all (\<lambda>i. i < shape0 (frame_values d)) cube
                 \<and> int (length cube) < min_cluster_samples c) (hypercubes cov) \<longrightarrow>
              mapper_map d cov c = Inr EmptyDict)"
proof (intro conjI allI impI)
  fix nid
  assume "cube_loop c (frame_values d) (hypercubes cov) (0, []) = Inr (nid, [])"
  then show "mapper_map d cov c = Inr EmptyDict"
    using assms by (simp add: mapper_map_def Let_def)
next
  assume "list_all (\<lambda>cube. list_all (\<lambda>i. i < shape0 (frame_values d)) cube
            \<and> int (length cube) < min_cluster_samples c) (hypercubes cov)"
  from cube_loop_below_gate [OF assms(2) this]
  have "cube_loop c (frame_values d) (hypercubes cov) (0, []) = Inr (0, [])" .
  then show "mapper_map d cov c = Inr EmptyDict"
    using assms by (simp add: mapper_map_def Let_def)
qed

theorem no_nodes_empty_graph_witness:
  "shape0 (frame_values line_frame) = n_points line_cover
   \<and> metric strict_clusterer \<noteq> ''precomputed''
   \<and> list_all (\<lambda>cube. list_all (\<lambda>i. i < shape0 (frame_values line_frame)) cube
         \<and> int (length cube) < min_cluster_samples strict_clusterer) (hypercubes line_cover)
   \<and> cube_loop strict_clusterer (frame_values line_frame) (hypercubes line_cover) (0, [])
       = Inr (0, [])
   \<and> mapper_map line_frame line_cover strict_clusterer = Inr EmptyDict"
proof -
  have h1: "shape0 (frame_values line_frame) = n_points line_cover"
    by (simp add: line_frame_def line_cover_def line_points_def shape0_def)
  have m: "metric strict_clusterer \<noteq> ''precomputed''"
    by (simp add: strict_clusterer_def)
  then have h2: "metric strict_clusterer = ''precomputed'' \<longrightarrow>
      shape0 (frame_values line_frame) = shape1 (frame_values line_frame)"
    by simp
  have h3: "list_all (\<lambda>cube. list_all (\<lambda>i. i < shape0 (frame_values line_frame)) cube
         \<and> int (length cube) < min_cluster_samples strict_clusterer) (hypercubes line_cover)"
    by (simp add: line_frame_def line_cover_def line_points_def line_cubes_def shape0_def
        strict_clusterer_def min_cluster_samples_def)
  have h4: "cube_loop strict_clusterer (frame_values line_frame) (hypercubes line_cover) (0, [])
       = Inr (0, [])"
    by (rule cube_loop_below_gate [OF h2 h3])
  from no_nodes_empty_graph [OF h1 h2] h1 m h3 h4 show ?thesis by simp
qed

section \<open>The graph\<close>

text \<open>
  C5. For a graph that the mapping stage returns on data with \<open>n\<close> rows:
  \<open>sample_names\<close> has \<open>n\<close> entries, every point id of every node is below \<open>n\<close>, every
  mask has the length \<open>n\<close>, and every mask has a \<open>True\<close> entry when the clusterer has a
  \<open>fit\<close>, or the minimum number of samples is at least 1, or no hypercube is empty.
  Without that condition a mask can be all \<open>False\<close>: a clusterer without \<open>fit\<close> and
  with \<open>min_samples = 0\<close> turns an empty hypercube into a node without points.
\<close>

theorem graph_rows_and_masks:
  assumes "mapper_map d cov c = Inr (GraphDict g)" and "wf_frame d"
  shows "length (sample_names g) = shape0 (frame_values d)
         \<and> (\<forall>(k, ids) \<in> set (nodes g). \<forall>p \<in> set ids. p < shape0 (frame_values d))
         \<and> (\<exists>nid masks.
               cube_loop c (frame_values d) (hypercubes cov) (0, []) = Inr (nid, masks)
               \<and> nodes g = map (\<lambda>(k, m). (k, member_points m)) masks
               \<and> (\<forall>(k, m) \<in> set masks. length m = shape0 (frame_values d))
               \<and> (fit c \<noteq> None \<or> 1 \<le> min_cluster_samples c \<or> [] \<notin> set (hypercubes cov) \<longrightarrow>
                    (\<forall>(k, m) \<in> set masks. \<exists>p < shape0 (frame_values d). m ! p)))"
proof -
  let ?n = "shape0 (frame_values d)"
  from mapper_map_graph [OF assms(1)] obtain nid masks ids where
    loop: "cube_loop c (frame_values d) (hypercubes cov) (0, []) = Inr (nid, masks)"
    and ids: "ids_of_nodes [0..<?n] masks = Inr ids"
    and g: "nodes g = ids"
      "sample_names g = (case frame_index d of Some ix \<Rightarrow> map Label ix
                          | None \<Rightarrow> map Row [0..<?n])"
    by blast
  have names: "length (sample_names g) = ?n"
    using g(2) assms(2) by (simp add: wf_frame_def split: option.splits)
  from ids_of_nodes_member_points [OF ids] g(1)
  have nd: "nodes g = map (\<lambda>(k, m). (k, member_points m)) masks"
    and len: "\<forall>(k, m) \<in> set masks. length m = ?n"
    by (simp_all add: list_all_iff)
  have rng: "\<forall>(k, ids) \<in> set (nodes g). \<forall>p \<in> set ids. p < ?n"
    using len by (auto simp: nd set_member_points)
  have k0: "keys_ok (0, [])" by (simp add: keys_ok_def)
  from cube_loop_masks [OF k0 loop]
  have ms: "map snd masks = concat (map (cube_masks c (frame_values d)) (hypercubes cov))"
    by simp
  have pt: "fit c \<noteq> None \<or> 1 \<le> min_cluster_samples c \<or> [] \<notin> set (hypercubes cov) \<longrightarrow>
              (\<forall>(k, m) \<in> set masks. \<exists>p < ?n. m ! p)"
  proof (intro impI)
    assume h: "fit c \<noteq> None \<or> 1 \<le> min_cluster_samples c \<or> [] \<notin> set (hypercubes cov)"
    show "\<forall>(k, m) \<in> set masks. \<exists>p < ?n. m ! p"
    proof (clarify)
      fix k m
      assume "(k, m) \<in> set masks"
      then have "m \<in> set (map snd masks)" by force
      then have "m \<in> set (concat (map (cube_masks c (frame_values d)) (hypercubes cov)))"
        by (simp only: ms)
      from cube_loop_has_point [OF k0 loop h this] show "\<exists>p < ?n. m ! p" .
    qed
  qed
  from names rng loop nd len pt show ?thesis by blast
qed

theorem graph_rows_and_masks_witness:
  "mapper_map line_frame line_cover threshold_clusterer = Inr (GraphDict line_graph)
   \<and> wf_frame line_frame
   \<and> fit threshold_clusterer \<noteq> None
   \<and> shape0 (frame_values line_frame) = 5
   \<and> length (sample_names line_graph) = 5
   \<and> nodes line_graph = [(0, [0, 1]), (1, [1]), (2, [3, 4])]
   \<and> list_all (\<lambda>(k, ids). list_all (\<lambda>p. p < 5) ids) (nodes line_graph)"
proof -
  have w: "wf_frame line_frame"
    by (simp add: wf_frame_def line_frame_def line_points_def shape0_def)
  have f: "fit threshold_clusterer \<noteq> None"
    by (simp add: threshold_clusterer_def)
  have n: "shape0 (frame_values line_frame) = 5"
    by (simp add: line_frame_def line_points_def shape0_def)
  from graph_rows_and_masks [OF line_map w] line_map w f n
  show ?thesis by (simp add: line_graph_def)
qed

theorem mask_without_point:
  "mapper_map pair_frame gap_cover nofit_clusterer = Inr (GraphDict gap_graph)
   \<and> cube_loop nofit_clusterer (frame_values pair_frame) (hypercubes gap_cover) (0, [])
       = Inr (2, [(0, [True, True]), (1, [False, False])])
   \<and> nodes gap_graph = [(0, [0, 1]), (1, [])]
   \<and> True \<notin> set [False, False]"
  using gap_map gap_loop by (simp add: gap_graph_def)

text \<open>
  C4. In a returned graph the node keys are \<open>0, 1, ...\<close> in the order of creation, and
  at every index \<open>i\<close> of the key list: the node at \<open>i\<close> has the key at \<open>i\<close>, the
  position at \<open>i\<close> is the coordinate-wise average of the rows of \<open>cover.data\<close> at the
  node's points, and the size at \<open>i\<close> is the number of the node's points.
\<close>

theorem node_positions_and_sizes:
  assumes "mapper_map d cov c = Inr (GraphDict g)"
  shows "node_keys g = [0..<length (node_keys g)]
         \<and> length (nodes g) = length (node_keys g)
         \<and> length (node_positions g) = length (node_keys g)
         \<and> length (node_sizes g) = length (node_keys g)
         \<and> (\<forall>i < length (node_keys g).
               fst (nodes g ! i) = node_keys g ! i
               \<and> node_positions g ! i = mean_position (cover_data cov) (snd (nodes g ! i))
               \<and> node_sizes g ! i = [Num (real (length (snd (nodes g ! i))))])"
proof -
  let ?n = "shape0 (frame_values d)"
  let ?w = "shape1 (cover_data cov)"
  from mapper_map_graph [OF assms] obtain nid masks positions sizes ids where
    loop: "cube_loop c (frame_values d) (hypercubes cov) (0, []) = Inr (nid, masks)"
    and pl: "positions_loop (cover_data cov) masks (enumerate_list (dict_keys masks))
                (replicate (length masks) (replicate ?w (Num 0)),
                 replicate (length masks) [Num 0]) = Inr (positions, sizes)"
    and ids: "ids_of_nodes [0..<?n] masks = Inr ids"
    and g: "nodes g = ids" "node_keys g = dict_keys masks"
      "node_positions g = positions" "node_sizes g = sizes"
    by blast
  let ?k = "length masks"
  have k0: "keys_ok (0, [])" by (simp add: keys_ok_def)
  from cube_loop_masks [OF k0 loop] have keys: "map fst masks = [0..<nid]"
    by (simp add: keys_ok_def)
  then have "length (map fst masks) = length [0..<nid]" by simp
  then have nid: "nid = ?k" by simp
  have dk: "dict_keys masks = [0..<?k]" using keys nid by (simp add: dict_keys_def)
  have en: "enumerate_list (dict_keys masks) = zip [0..<?k] [0..<?k]"
    by (simp add: enumerate_list_def dk)
  have dist: "distinct (map fst (zip [0..<?k] [0..<?k]))" by simp
  from ids_of_nodes_member_points [OF ids] g(1)
  have nd: "nodes g = map (\<lambda>(k, m). (k, member_points m)) masks" by simp
  from positions_loop_rows [OF pl [unfolded en] dist]
  have lp: "length positions = ?k" and ls: "length sizes = ?k"
    and each: "\<forall>(i, k) \<in> set (zip [0..<?k] [0..<?k]). \<exists>m. dict_get masks k = Some m
       \<and> positions ! i = map2 fadd (replicate ?k (replicate ?w (Num 0)) ! i)
                              (mean_position (cover_data cov) (member_points m))
       \<and> sizes ! i = map (\<lambda>s. fadd s (Num (real (length (member_points m)))))
                         (replicate ?k [Num 0] ! i)"
    by simp_all
  have row: "\<forall>i < ?k. fst (nodes g ! i) = i
               \<and> node_positions g ! i = mean_position (cover_data cov) (snd (nodes g ! i))
               \<and> node_sizes g ! i = [Num (real (length (snd (nodes g ! i))))]"
  proof (intro allI impI)
    fix i assume i: "i < ?k"
    have fi: "fst (masks ! i) = i"
      using keys nid i by (metis nth_map nth_upt add_0 length_map)
    have "distinct (map fst masks)" using keys by simp
    from dict_get_nth [OF this i] fi
    have dg: "dict_get masks i = Some (snd (masks ! i))" by simp
    have "(i, i) \<in> set (zip [0..<?k] [0..<?k])"
      using i by (auto simp: zip_same_conv_map)
    with each dg
    have p: "positions ! i = map2 fadd (replicate ?k (replicate ?w (Num 0)) ! i)
                 (mean_position (cover_data cov) (member_points (snd (masks ! i))))"
      and s: "sizes ! i = map (\<lambda>s. fadd s (Num (real (length (member_points (snd (masks ! i)))))))
                 (replicate ?k [Num 0] ! i)"
      by auto
    have ni: "nodes g ! i = (i, member_points (snd (masks ! i)))"
      using i fi by (simp add: nd case_prod_unfold)
    show "fst (nodes g ! i) = i
          \<and> node_positions g ! i = mean_position (cover_data cov) (snd (nodes g ! i))
          \<and> node_sizes g ! i = [Num (real (length (snd (nodes g ! i))))]"
      using p s i ni g(3,4)
      by (simp add: map2_fadd_zeros mean_position_length fadd_zero)
  qed
  have "length (nodes g) = ?k" by (simp add: nd)
  with row lp ls g dk show ?thesis by simp
qed

theorem node_positions_and_sizes_witness:
  "mapper_map line_frame line_cover threshold_clusterer = Inr (GraphDict line_graph)
   \<and> node_keys line_graph = [0, 1, 2]
   \<and> nodes line_graph = [(0, [0, 1]), (1, [1]), (2, [3, 4])]
   \<and> node_positions line_graph = [[Num 1, Num (1 / 2)], [Num 2, Num 1], [Num 11, Num (1 / 2)]]
   \<and> node_sizes line_graph = [[Num 2], [Num 1], [Num 2]]
   \<and> mean_position (cover_data line_cover) [3, 4] = [Num 11, Num (1 / 2)]
   \<and> mean_position (frame_values line_frame) [3, 4] = [Num (11 / 2)]"
proof -
  have m: "mean_position (cover_data line_cover) [3, 4] = [Num 11, Num (1 / 2)]"
    by (simp add: mean_position_def line_cover_def line_projected_def numeral_2_eq_2)
  have r: "mean_position (frame_values line_frame) [3, 4] = [Num (11 / 2)]"
    by (simp add: mean_position_def line_frame_def line_points_def)
  from node_positions_and_sizes [OF line_map] line_map m r
  show ?thesis by (simp add: line_graph_def)
qed

text \<open>
  C1. In a returned graph, for all node ids \<open>a\<close> and \<open>b\<close>: the cell \<open>(a, b)\<close> of the
  adjacency table is present exactly when \<open>a < b\<close> and the masks of \<open>a\<close> and \<open>b\<close> share a
  \<open>True\<close> position, and the edge list holds exactly these pairs. The table is upper
  triangular: the cell \<open>(b, a)\<close> of an edge \<open>(a, b)\<close> stays \<open>NaN\<close>, so the table is not
  symmetric, and every edge is listed once, smaller id first.
\<close>

theorem edges_upper_triangle:
  assumes "mapper_map d cov c = Inr (GraphDict g)"
  shows "\<exists>nid masks.
           cube_loop c (frame_values d) (hypercubes cov) (0, []) = Inr (nid, masks)
           \<and> node_keys g = [0..<length masks]
           \<and> df_index (adj_matrix g) = node_keys g
           \<and> df_columns (adj_matrix g) = node_keys g
           \<and> edges g = filter (\<lambda>ab. df_cells (adj_matrix g) ab \<noteq> None)
                         (List.product (node_keys g) (node_keys g))
           \<and> distinct (edges g)
           \<and> (\<forall>a b.
                 (df_cells (adj_matrix g) (a, b) \<noteq> None)
                   = (a < b \<and> b < length masks
                      \<and> (\<exists>p < shape0 (frame_values d). snd (masks ! a) ! p \<and> snd (masks ! b) ! p))
                 \<and> ((a, b) \<in> set (edges g))
                   = (a < b \<and> b < length masks
                      \<and> (\<exists>p < shape0 (frame_values d). snd (masks ! a) ! p \<and> snd (masks ! b) ! p)))"
proof -
  let ?n = "shape0 (frame_values d)"
  from mapper_map_graph [OF assms] obtain nid masks adj ids where
    loop: "cube_loop c (frame_values d) (hypercubes cov) (0, []) = Inr (nid, masks)"
    and el: "edges_loop masks (combinations2 (dict_keys masks))
                (df_nan (dict_keys masks) (dict_keys masks)) = Inr adj"
    and ids: "ids_of_nodes [0..<?n] masks = Inr ids"
    and g: "edges g = df_stack_index adj" "adj_matrix g = adj" "node_keys g = dict_keys masks"
    by blast
  let ?k = "length masks"
  let ?share = "\<lambda>a b. \<exists>p < ?n. snd (masks ! a) ! p \<and> snd (masks ! b) ! p"
  have k0: "keys_ok (0, [])" by (simp add: keys_ok_def)
  from cube_loop_masks [OF k0 loop] have keys: "map fst masks = [0..<nid]"
    by (simp add: keys_ok_def)
  then have "length (map fst masks) = length [0..<nid]" by simp
  then have nid: "nid = ?k" by simp
  have dk: "dict_keys masks = [0..<?k]" using keys nid by (simp add: dict_keys_def)
  have dist: "distinct (map fst masks)" using keys by simp
  have len: "\<And>i. i < ?k \<Longrightarrow> length (snd (masks ! i)) = ?n"
  proof -
    fix i assume i: "i < ?k"
    then have "masks ! i \<in> set masks" by simp
    with ids_of_nodes_member_points [OF ids] show "length (snd (masks ! i)) = ?n"
      by (auto simp: list_all_iff)
  qed
  have get: "\<And>i. i < ?k \<Longrightarrow> dict_get masks i = Some (snd (masks ! i))"
  proof -
    fix i assume i: "i < ?k"
    have "fst (masks ! i) = i"
      using keys nid i by (metis nth_map nth_upt add_0 length_map)
    with dict_get_nth [OF dist i] show "dict_get masks i = Some (snd (masks ! i))" by simp
  qed
  have pre: "\<forall>(a, b) \<in> set (combinations2 [0..<?k]).
               a \<in> set (df_index (df_nan [0..<?k] [0..<?k]))
               \<and> b \<in> set (df_columns (df_nan [0..<?k] [0..<?k]))"
    by (auto simp: set_combinations2_upt df_nan_def)
  from edges_loop_cells [OF el [unfolded dk] pre]
  have ix: "df_index adj = [0..<?k]" "df_columns adj = [0..<?k]"
    and cells: "\<And>a b. df_cells adj (a, b) =
       (if a < b \<and> b < ?k
           \<and> (\<exists>m1 m2. dict_get masks a = Some m1 \<and> dict_get masks b = Some m2
                 \<and> np_any (mask_and m1 m2))
        then Some 1 else None)"
    by (simp_all add: set_combinations2_upt df_nan_def)
  have share: "\<And>a b. a < b \<Longrightarrow> b < ?k \<Longrightarrow>
      (\<exists>m1 m2. dict_get masks a = Some m1 \<and> dict_get masks b = Some m2
            \<and> np_any (mask_and m1 m2)) = ?share a b"
  proof -
    fix a b assume ab: "a < b" "b < ?k"
    then have a: "a < ?k" by simp
    show "(\<exists>m1 m2. dict_get masks a = Some m1 \<and> dict_get masks b = Some m2
            \<and> np_any (mask_and m1 m2)) = ?share a b"
      by (simp add: get [OF a] get [OF ab(2)] np_any_mask_and len [OF a] len [OF ab(2)])
  qed
  have c1: "\<And>a b. (df_cells adj (a, b) \<noteq> None) = (a < b \<and> b < ?k \<and> ?share a b)"
  proof -
    fix a b
    show "(df_cells adj (a, b) \<noteq> None) = (a < b \<and> b < ?k \<and> ?share a b)"
    proof (cases "a < b \<and> b < ?k")
      case True
      then have ab: "a < b" "b < ?k" by simp_all
      show ?thesis unfolding cells using share [OF ab] ab by simp
    next
      case False
      then show ?thesis unfolding cells by auto
    qed
  qed
  have c2: "\<And>a b. ((a, b) \<in> set (edges g)) = (a < b \<and> b < ?k \<and> ?share a b)"
    using c1 by (auto simp: g(1) df_stack_index_def ix)
  have el: "edges g = filter (\<lambda>ab. df_cells adj ab \<noteq> None)
                       (List.product [0..<?k] [0..<?k])"
    by (simp add: g(1) df_stack_index_def ix)
  have dst: "distinct (edges g)"
    unfolding el by (simp add: distinct_product)
  from loop g dk ix el dst c1 c2 show ?thesis by auto
qed

theorem edges_upper_triangle_witness:
  "mapper_map line_frame line_cover threshold_clusterer = Inr (GraphDict line_graph)
   \<and> node_keys line_graph = [0, 1, 2]
   \<and> df_index (adj_matrix line_graph) = [0, 1, 2]
   \<and> edges line_graph = [(0, 1)]
   \<and> distinct (edges line_graph)
   \<and> df_cells (adj_matrix line_graph) (0, 1) = Some 1
   \<and> df_cells (adj_matrix line_graph) (0, 2) = None"
  using edges_upper_triangle [OF line_map] line_map
  by (simp add: line_graph_def)

theorem adjacency_not_symmetric:
  "mapper_map line_frame line_cover threshold_clusterer = Inr (GraphDict line_graph)
   \<and> cube_loop threshold_clusterer (frame_values line_frame) (hypercubes line_cover) (0, [])
       = Inr (3, [(0, [True, True, False, False, False]),
                  (1, [False, True, False, False, False]),
                  (2, [False, False, False, True, True])])
   \<and> np_any (mask_and [False, True, False, False, False] [True, True, False, False, False])
   \<and> df_cells (adj_matrix line_graph) (0, 1) = Some 1
   \<and> df_cells (adj_matrix line_graph) (1, 0) = None
   \<and> (0, 1) \<in> set (edges line_graph)
   \<and> (1, 0) \<notin> set (edges line_graph)"
  using line_map line_loop
  by (simp add: line_graph_def line_frame_def line_cover_def np_any_def mask_and_def)

end
